theory Spec2Isabelle
  imports
    Complex_Main
    "HOL-Library.Char_ord"
    "HOL-Library.List_Lexorder"
    "HOL-Library.Multiset"
    "HOL-Library.Finite_Map"
begin

section \<open>VideoToGrid.ts: the frame-sampling and grid-composition pipeline\<close>

text \<open>
  The class \<open>VideoFrameExtractor\<close> of \<open>src/VideoToGrid.ts\<close>, function by function.

  Numbers. A TypeScript \<open>number\<close> is modelled as an exact rational: the arithmetic the
  code writes (\<open>/\<close>, \<open>-\<close>, \<open>*\<close>, \<open>Math.floor\<close>, \<open>Math.ceil\<close>, \<open>Math.min\<close>) is the
  arithmetic of the model, without the rounding of doubles. Numbers that the code only
  uses as whole numbers (frame counts, indices, pixel sizes) are \<open>int\<close> or \<open>nat\<close>.
  \<open>NaN\<close>, which \<open>validateDuration\<close> tests for, is a value of its own.

  Strings are \<open>char list\<close>; \<open>Array.prototype.sort()\<close> without a comparator orders strings
  by code unit, which is the lexicographic order of \<open>HOL-Library.List_Lexorder\<close> over
  \<open>HOL-Library.Char_ord\<close>.
\<close>

subsection \<open>Data\<close>

record FrameConfig =
  interval :: int
  maxFrames :: int

record GridDimensions =
  width :: int
  height :: int

datatype number = NaN | Num rat

text \<open>The \<open>code\<close> field of \<open>VideoProcessingError\<close> (the message is not modelled).\<close>

datatype error_code =
    FFMPEG_NOT_FOUND
  | PERMISSION_ERROR
  | NO_VIDEO_FOUND
  | MULTIPLE_VIDEOS
  | EMPTY_FILE
  | FILE_ACCESS_ERROR
  | INVALID_DURATION
  | DURATION_TOO_LONG
  | DURATION_READ_ERROR
  | UNKNOWN_ERROR

text \<open>
  What a function throws: a \<open>VideoProcessingError\<close> with its code, or any other error
  (a rejected \<open>fs\<close> call, a decoder or \<open>sharp\<close> failure).
\<close>

datatype exn = VideoProcessingError error_code | Error

subsection \<open>The sampling plan\<close>

definition getFrameConfig :: "rat \<Rightarrow> FrameConfig" where
  "getFrameConfig durationInMinutes =
     (if durationInMinutes \<le> 1 / 2 then \<lparr>interval = 2, maxFrames = 16\<rparr>
      else if durationInMinutes \<le> 1 then \<lparr>interval = 3, maxFrames = 20\<rparr>
      else if durationInMinutes \<le> 2 then \<lparr>interval = 4, maxFrames = 28\<rparr>
      else if durationInMinutes \<le> 3 then \<lparr>interval = 5, maxFrames = 32\<rparr>
      else if durationInMinutes \<le> 4 then \<lparr>interval = 6, maxFrames = 36\<rparr>
      else \<lparr>interval = 7, maxFrames = 40\<rparr>)"

text \<open>
  The local \<open>frameCount\<close> of \<open>extractFrames\<close>:
  \<open>Math.min(Math.floor(durationInSeconds / config.interval) + 1, config.maxFrames)\<close>
  with \<open>config = getFrameConfig(durationInSeconds / 60)\<close>.
\<close>

definition frameCount :: "rat \<Rightarrow> int" where
  "frameCount durationInSeconds =
     (let config = getFrameConfig (durationInSeconds / 60)
      in min (\<lfloor>durationInSeconds / of_int (interval config)\<rfloor> + 1) (maxFrames config))"

subsection \<open>Strings and paths\<close>

text \<open>
  \<open>String(n)\<close> for a whole number \<open>n\<close>: its decimal digits, with a minus sign when
  negative. \<open>padStart\<close>, \<open>toLowerCase\<close> (on the letters A to Z, the only ones that can
  reach a supported extension in 8-bit strings) and \<open>Array.prototype.slice\<close> with
  non-negative bounds are the host language's.
\<close>

definition digit_char :: "nat \<Rightarrow> char" where
  "digit_char n = char_of (48 + n)"

fun string_of_nat :: "nat \<Rightarrow> string" where
  "string_of_nat n =
     (if n < 10 then [digit_char n]
      else string_of_nat (n div 10) @ [digit_char (n mod 10)])"

definition String :: "int \<Rightarrow> string" where
  "String n = (if n < 0 then CHR ''-'' # string_of_nat (nat (- n)) else string_of_nat (nat n))"

definition padStart :: "nat \<Rightarrow> char \<Rightarrow> string \<Rightarrow> string" where
  "padStart targetLength padChar str = replicate (targetLength - length str) padChar @ str"

definition toLowerCase :: "string \<Rightarrow> string" where
  "toLowerCase str =
     map (\<lambda>c. if CHR ''A'' \<le> c \<and> c \<le> CHR ''Z'' then char_of (of_char c + (32 :: nat)) else c) str"

definition slice :: "nat \<Rightarrow> nat \<Rightarrow> 'a list \<Rightarrow> 'a list" where
  "slice start end' xs = take (end' - start) (drop start xs)"

text \<open>
  \<open>path.join\<close> of a directory and an entry name, and the entry name of such a path.
  \<open>path.extname\<close> is applied to entry names only (no separator in them): the
  extension starts at the last dot, and there is none when the name has no dot, when
  its only dot is its first character, or when the name is \<open>..\<close>.
\<close>

definition path_join :: "string \<Rightarrow> string \<Rightarrow> string" where
  "path_join dir entry = dir @ ''/'' @ entry"

definition basename :: "string \<Rightarrow> string" where
  "basename p = rev (takeWhile (\<lambda>c. c \<noteq> CHR ''/'') (rev p))"

definition extname :: "string \<Rightarrow> string" where
  "extname file =
     (let n = length (takeWhile (\<lambda>c. c \<noteq> CHR ''.'') (rev file))
      in if n = length file \<or> n + 1 = length file \<or> file = ''..'' then []
         else drop (length file - n - 1) file)"

subsection \<open>The fields of the class\<close>

definition sourceFolder :: "string \<Rightarrow> string" where
  "sourceFolder cwd = path_join (path_join cwd ''content'') ''automate''"

definition framesFolder :: "string \<Rightarrow> string" where
  "framesFolder cwd = path_join (path_join cwd ''content'') ''frames''"

definition gridFolder :: "string \<Rightarrow> string" where
  "gridFolder cwd = path_join (path_join cwd ''content'') ''grid''"

definition supportedFormats :: "string list" where
  "supportedFormats = [''.mp4'', ''.mov'', ''.avi'', ''.mkv'', ''.wmv'']"

definition gridSize :: GridDimensions where
  "gridSize = \<lparr>width = 1920, height = 1080\<rparr>"

subsection \<open>The world outside the class\<close>

text \<open>
  A still written by the decoder: the video it was taken from and the timestamp asked
  for. A composite written by \<open>sharp\<close>: the canvas and the overlays, each the frame file
  it was read from, the size asked of \<open>resize\<close> and its offset on the canvas.
\<close>

record still =
  video :: string
  timestamp :: rat

record resized =
  frame_file :: string
  resize_width :: int
  resize_height :: int
  withoutEnlargement :: bool

record overlay =
  input :: resized
  top_px :: int
  left_px :: int

record composite =
  canvas_width :: int
  canvas_height :: int
  background :: "int \<times> int \<times> int"
  overlays :: "overlay list"

text \<open>
  The state the pipeline changes: the two output directories (\<open>None\<close> while a directory
  does not exist, otherwise its entries by name), the decoder invocations that have
  completed with a still written (timestamp and output path) and the composites that
  have been written (output path), each in the order of completion.
\<close>

record world =
  frames :: "(string, still) fmap option"
  grid :: "(string, composite) fmap option"
  extracted :: "(rat \<times> string) list"
  composed :: "string list"

text \<open>
  What the pipeline reads from outside and cannot decide: the working directory
  (\<open>process.cwd()\<close>); whether \<open>ffmpeg -version\<close> runs; whether the source folder passes
  \<open>fs.access\<close> for reading; what \<open>fs.readdir\<close> of the source folder and \<open>fs.stat\<close> of a
  path return (\<open>None\<close> when they reject); what \<open>getVideoDurationInSeconds\<close> returns;
  whether \<open>fs.mkdir\<close> of a folder, \<open>fs.readdir\<close> of an output folder and \<open>fs.unlink\<close> of a
  path succeed; what the decoder does (below); the pixel size of the image that \<open>sharp\<close>
  reads at a path, and whether the \<open>sharp\<close> pipeline for a batch and an output path
  succeeds; and which of the pending concurrent operations of a \<open>Promise.all\<close>
  completes next.

  The decoder command is \<open>ffmpeg -ss t -i video -vframes 1 -q:v 1 -pix_fmt rgb24 out\<close>. It
  opens its input first: \<open>ffmpeg_opens\<close> tells whether the options are accepted and the
  video can be opened at the timestamp. It then turns to its output, and \<open>ffmpeg_ok\<close>
  tells whether, the output file being created, the command exits with status 0 and
  leaves one still at the output path. This is the decoder contract of the
  specification (one still per call, for a timestamp in \<open>[0, duration)\<close>); \<open>extractFrame\<close>
  itself looks at the exit status only, and every timestamp it is given in a run that
  returns lies in \<open>[0, duration)\<close> (lemma \<open>extracted_within_duration\<close>). A decoder that
  exits with status 0 without writing a file is outside that contract and is not
  modelled.
\<close>

record env =
  cwd :: string
  ffmpeg_version_ok :: bool
  source_readable :: bool
  readdir_source :: "string list option"
  stat_size :: "string \<Rightarrow> nat option"
  getVideoDurationInSeconds :: "string \<Rightarrow> number option"
  mkdir_ok :: "string \<Rightarrow> bool"
  readdir_ok :: "string \<Rightarrow> bool"
  unlink_ok :: "string \<Rightarrow> bool"
  ffmpeg_opens :: "string \<Rightarrow> rat \<Rightarrow> bool"
  ffmpeg_ok :: "string \<Rightarrow> rat \<Rightarrow> string \<Rightarrow> bool"
  image_size :: "string \<Rightarrow> nat \<times> nat"
  sharp_ok :: "string list \<Rightarrow> string \<Rightarrow> bool"
  completes_next :: "nat list \<Rightarrow> nat"

text \<open>
  The order in which the operations started by one \<open>Promise.all\<close> complete: among the
  pending ones, the environment picks the next. Every choice function gives an order
  in which each operation completes once, and every such order is given by a choice
  function (lemmas \<open>mset_completion_order\<close> and \<open>completion_order_any\<close>).
\<close>

function completion_order :: "(nat list \<Rightarrow> nat) \<Rightarrow> nat list \<Rightarrow> nat list" where
  "completion_order pick pending =
     (if pending = [] then []
      else let k = pick pending mod length pending
           in pending ! k # completion_order pick (take k pending @ drop (Suc k) pending))"
  by pat_completeness auto
termination
proof (relation "measure (\<lambda>(pick, pending). length pending)")
  fix pick :: "nat list \<Rightarrow> nat" and pending :: "nat list" and k :: nat
  assume "pending \<noteq> []" and "k = pick pending mod length pending"
  then have "k < length pending" by simp
  then show "((pick, take k pending @ drop (Suc k) pending), (pick, pending))
               \<in> measure (\<lambda>(pick, pending). length pending)"
    by simp
qed simp

subsection \<open>Validation\<close>

definition validateFFmpeg :: "env \<Rightarrow> exn + unit" where
  "validateFFmpeg e =
     (if ffmpeg_version_ok e then Inr () else Inl (VideoProcessingError FFMPEG_NOT_FOUND))"

text \<open>
  When the frames folder exists, either both \<open>fs.access\<close> calls pass or the recursive
  \<open>mkdir\<close> of an existing directory does: nothing changes and nothing is thrown.
\<close>

definition validateFolderPermissions :: "env \<Rightarrow> world \<Rightarrow> (exn + unit) \<times> world" where
  "validateFolderPermissions e s =
     (if \<not> source_readable e then (Inl (VideoProcessingError PERMISSION_ERROR), s)
      else (case frames s of
              Some _ \<Rightarrow> (Inr (), s)
            | None \<Rightarrow>
                if mkdir_ok e (framesFolder (cwd e)) then (Inr (), s\<lparr>frames := Some fmempty\<rparr>)
                else (Inl (VideoProcessingError PERMISSION_ERROR), s)))"

definition findVideo :: "env \<Rightarrow> exn + string" where
  "findVideo e =
     (case readdir_source e of
        None \<Rightarrow> Inl (VideoProcessingError FILE_ACCESS_ERROR)
      | Some files \<Rightarrow>
          let videoFiles = filter (\<lambda>file. toLowerCase (extname file) \<in> set supportedFormats) files
          in if length videoFiles = 0 then Inl (VideoProcessingError NO_VIDEO_FOUND)
             else if length videoFiles > 1 then Inl (VideoProcessingError MULTIPLE_VIDEOS)
             else let videoPath = path_join (sourceFolder (cwd e)) (videoFiles ! 0)
                  in (case stat_size e videoPath of
                        None \<Rightarrow> Inl (VideoProcessingError FILE_ACCESS_ERROR)
                      | Some size' \<Rightarrow>
                          if size' = 0 then Inl (VideoProcessingError EMPTY_FILE)
                          else Inr videoPath))"

definition validateDuration :: "env \<Rightarrow> string \<Rightarrow> exn + rat" where
  "validateDuration e videoPath =
     (case getVideoDurationInSeconds e videoPath of
        None \<Rightarrow> Inl (VideoProcessingError DURATION_READ_ERROR)
      | Some NaN \<Rightarrow> Inl (VideoProcessingError INVALID_DURATION)
      | Some (Num durationInSeconds) \<Rightarrow>
          if durationInSeconds \<le> 0 then Inl (VideoProcessingError INVALID_DURATION)
          else (let durationInMinutes = durationInSeconds / 60
                in if durationInMinutes > 5 then Inl (VideoProcessingError DURATION_TOO_LONG)
                   else Inr durationInSeconds))"

subsection \<open>Frames\<close>

text \<open>
  \<open>Promise.all(files.map(file => fs.unlink(path.join(folder, file))))\<close>: every entry whose
  \<open>unlink\<close> succeeds is gone; the call rejects when one of them fails.
\<close>

definition unlinkAll ::
  "env \<Rightarrow> string \<Rightarrow> (string, 'a) fmap \<Rightarrow> (exn + unit) \<times> (string, 'a) fmap" where
  "unlinkAll e folder dir =
     (if fmpred (\<lambda>file _. unlink_ok e (path_join folder file)) dir then Inr () else Inl Error,
      fmfilter (\<lambda>file. \<not> unlink_ok e (path_join folder file)) dir)"

text \<open>
  \<open>prepareOutputFolder\<close>: the frames folder is created when it is missing, then listed
  and emptied; a failed \<open>mkdir\<close>, \<open>readdir\<close> or \<open>unlink\<close> rejects.
\<close>

definition prepareOutputFolder :: "env \<Rightarrow> world \<Rightarrow> (exn + unit) \<times> world" where
  "prepareOutputFolder e s =
     (case (case frames s of
              Some dir \<Rightarrow> Inr dir
            | None \<Rightarrow> if mkdir_ok e (framesFolder (cwd e)) then Inr fmempty else Inl Error) of
        Inl err \<Rightarrow> (Inl err, s)
      | Inr dir \<Rightarrow>
          if \<not> readdir_ok e (framesFolder (cwd e)) then (Inl Error, s\<lparr>frames := Some dir\<rparr>)
          else (case unlinkAll e (framesFolder (cwd e)) dir of
                  (r, dir') \<Rightarrow> (r, s\<lparr>frames := Some dir'\<rparr>)))"

text \<open>
  One decoder invocation, through \<open>execAsync\<close>. The result is \<open>None\<close> when the promise
  never settles, \<open>Some (Inl err)\<close> when it rejects and \<open>Some (Inr ())\<close> when it resolves.

  Every call site passes an output path inside the frames folder. The command carries
  no \<open>-y\<close>: when a file is already at the output path, the decoder asks on its standard
  input whether to overwrite it; \<open>exec\<close> leaves that pipe open and writes nothing to it,
  and sets no timeout, so the call neither resolves nor rejects and the file stays as
  it was. Otherwise the call rejects when the decoder fails, and when it succeeds the
  still is in the frames folder under the entry name of the output path.
\<close>

definition extractFrame ::
  "env \<Rightarrow> string \<Rightarrow> rat \<Rightarrow> string \<Rightarrow> world \<Rightarrow> (exn + unit) option \<times> world" where
  "extractFrame e videoPath timeInSeconds outputPath s =
     (case frames s of
        None \<Rightarrow> (Some (Inl Error), s)
      | Some dir \<Rightarrow>
          if \<not> ffmpeg_opens e videoPath timeInSeconds then (Some (Inl Error), s)
          else (case fmlookup dir (basename outputPath) of
                  Some _ \<Rightarrow> (None, s)
                | None \<Rightarrow>
                    if ffmpeg_ok e videoPath timeInSeconds outputPath
                    then (Some (Inr ()),
                          s\<lparr>frames := Some (fmupd (basename outputPath)
                                               \<lparr>video = videoPath, timestamp = timeInSeconds\<rparr> dir),
                            extracted := extracted s @ [(timeInSeconds, outputPath)]\<rparr>)
                    else (Some (Inl Error), s)))"

text \<open>
  The middle frames: the body of the \<open>Array.from\<close> callback for index \<open>i\<close>, run for the
  indices in the order their extractions complete. The first extraction that rejects
  rejects the \<open>Promise.all\<close>; the others still run, and a completed one pushes its path.
  When none rejects and one never settles, the \<open>Promise.all\<close> never settles. The state
  returned is the one reached when every extraction that settles has settled.
\<close>

fun extractMiddle ::
  "env \<Rightarrow> string \<Rightarrow> rat \<Rightarrow> nat list \<Rightarrow> string list \<Rightarrow> world
     \<Rightarrow> (exn + string list) option \<times> world" where
  "extractMiddle e videoPath interval' [] frameFiles s = (Some (Inr frameFiles), s)"
| "extractMiddle e videoPath interval' (i # rest) frameFiles s =
     (let timeInSeconds = (of_nat i + 1) * interval';
          frameNumber = padStart 3 CHR ''0'' (String (int i + 1));
          framePath = path_join (framesFolder (cwd e)) (''frame_'' @ frameNumber @ ''.jpg'')
      in (case extractFrame e videoPath timeInSeconds framePath s of
            (None, s') \<Rightarrow>
              (case extractMiddle e videoPath interval' rest frameFiles s' of
                 (Some (Inl err), s'') \<Rightarrow> (Some (Inl err), s'')
               | (_, s'') \<Rightarrow> (None, s''))
          | (Some (Inl err), s') \<Rightarrow>
              (case extractMiddle e videoPath interval' rest frameFiles s' of
                 (_, s'') \<Rightarrow> (Some (Inl err), s''))
          | (Some (Inr _), s') \<Rightarrow>
              extractMiddle e videoPath interval' rest (frameFiles @ [framePath]) s'))"

text \<open>
  \<open>extractFrames\<close>: each \<open>await\<close> passes a rejection on, and nothing after an \<open>await\<close> that
  never settles is run.
\<close>

definition extractFrames ::
  "env \<Rightarrow> string \<Rightarrow> rat \<Rightarrow> world \<Rightarrow> (exn + string list) option \<times> world" where
  "extractFrames e videoPath durationInSeconds s =
     (case prepareOutputFolder e s of
        (Inl err, s1) \<Rightarrow> (Some (Inl err), s1)
      | (Inr _, s1) \<Rightarrow>
          let config = getFrameConfig (durationInSeconds / 60);
              frameCount' = min (\<lfloor>durationInSeconds / of_int (interval config)\<rfloor> + 1)
                                (maxFrames config);
              firstFramePath = path_join (framesFolder (cwd e)) ''frame_000.jpg''
          in (case extractFrame e videoPath 0 firstFramePath s1 of
                (None, s2) \<Rightarrow> (None, s2)
              | (Some (Inl err), s2) \<Rightarrow> (Some (Inl err), s2)
              | (Some (Inr _), s2) \<Rightarrow>
                  let interval' = (durationInSeconds - 1) / of_int (frameCount' - 2);
                      order = completion_order (completes_next e) [0 ..< nat (frameCount' - 2)]
                  in (case extractMiddle e videoPath interval' order [firstFramePath] s2 of
                        (None, s3) \<Rightarrow> (None, s3)
                      | (Some (Inl err), s3) \<Rightarrow> (Some (Inl err), s3)
                      | (Some (Inr frameFiles), s3) \<Rightarrow>
                          let lastFrameNumber = padStart 3 CHR ''0'' (String (frameCount' - 1));
                              lastFramePath = path_join (framesFolder (cwd e))
                                                (''frame_'' @ lastFrameNumber @ ''.jpg'')
                          in (case extractFrame e videoPath (durationInSeconds - 1 / 10)
                                     lastFramePath s3 of
                                (None, s4) \<Rightarrow> (None, s4)
                              | (Some (Inl err), s4) \<Rightarrow> (Some (Inl err), s4)
                              | (Some (Inr _), s4) \<Rightarrow>
                                  (Some (Inr (sort (frameFiles @ [lastFramePath]))), s4)))))"

subsection \<open>Grids\<close>

text \<open>
  \<open>createGrid\<close> records, for each overlay, the frame file and what it asks of \<open>resize\<close>;
  the constant options (\<open>fit: 'fill'\<close>, the kernel, the JPEG settings) are left out.
\<close>

definition createGrid :: "env \<Rightarrow> string list \<Rightarrow> nat \<Rightarrow> world \<Rightarrow> (exn + unit) \<times> world" where
  "createGrid e frameFiles gridIndex s =
     (if length frameFiles = 0 then (Inr (), s)
      else
        let frameWidth = \<lfloor>(of_int (width gridSize) :: rat) / 2\<rfloor>;
            frameHeight = \<lfloor>(of_int (height gridSize) :: rat) / 2\<rfloor>;
            gap = 2;
            overlays' =
              map (\<lambda>(index, framePath).
                     \<lparr>input = \<lparr>frame_file = framePath,
                               resize_width = frameWidth - gap,
                               resize_height = frameHeight - gap,
                               withoutEnlargement = True\<rparr>,
                      top_px = \<lfloor>(of_nat index :: rat) / 2\<rfloor> * frameHeight
                               + \<lfloor>(of_int gap :: rat) / 2\<rfloor>,
                      left_px = (int index mod 2) * frameWidth + \<lfloor>(of_int gap :: rat) / 2\<rfloor>\<rparr>)
                  (enumerate 0 (slice 0 4 frameFiles));
            outputPath = path_join (gridFolder (cwd e))
                           (''grid_'' @ padStart 3 CHR ''0'' (String (int gridIndex)) @ ''.jpg'')
        in (case grid s of
              None \<Rightarrow> (Inl Error, s)
            | Some dir \<Rightarrow>
                if sharp_ok e frameFiles outputPath
                then (Inr (),
                      s\<lparr>grid := Some (fmupd (basename outputPath)
                                        \<lparr>canvas_width = width gridSize,
                                         canvas_height = height gridSize,
                                         background = (0, 0, 0),
                                         overlays = overlays'\<rparr> dir),
                        composed := composed s @ [outputPath]\<rparr>)
                else (Inl Error, s)))"

text \<open>
  The batches of \<open>createGrids\<close>, run in the order they complete; a failed batch rejects
  the \<open>Promise.all\<close> and the others still complete.
\<close>

fun createBatches :: "env \<Rightarrow> string list \<Rightarrow> nat list \<Rightarrow> world \<Rightarrow> (exn + unit) \<times> world" where
  "createBatches e frameFiles [] s = (Inr (), s)"
| "createBatches e frameFiles (i # rest) s =
     (let gridFrames = slice (i * 4) ((i + 1) * 4) frameFiles
      in (case createGrid e gridFrames i s of
            (Inl err, s') \<Rightarrow>
              (case createBatches e frameFiles rest s' of (_, s'') \<Rightarrow> (Inl err, s''))
          | (Inr _, s') \<Rightarrow> createBatches e frameFiles rest s'))"

definition createGrids :: "env \<Rightarrow> string list \<Rightarrow> world \<Rightarrow> (exn + unit) \<times> world" where
  "createGrids e frameFiles s =
     (case (case grid s of
              Some dir \<Rightarrow> Inr dir
            | None \<Rightarrow> if mkdir_ok e (gridFolder (cwd e)) then Inr fmempty else Inl Error) of
        Inl err \<Rightarrow> (Inl err, s)
      | Inr dir \<Rightarrow>
          if \<not> readdir_ok e (gridFolder (cwd e)) then (Inl Error, s\<lparr>grid := Some dir\<rparr>)
          else
            (case unlinkAll e (gridFolder (cwd e)) dir of
               (Inl err, dir') \<Rightarrow> (Inl err, s\<lparr>grid := Some dir'\<rparr>)
             | (Inr _, dir') \<Rightarrow>
                 let numGrids = nat \<lceil>(of_nat (length frameFiles) :: rat) / 4\<rceil>;
                     order = completion_order (completes_next e) [0 ..< numGrids]
                 in createBatches e frameFiles order (s\<lparr>grid := Some dir'\<rparr>)))"

text \<open>
  What \<open>sharp\<close> makes of the request, for an input image of a given pixel size: with
  \<open>fit: 'fill'\<close> each axis is scaled to the size asked for, the aspect ratio is not kept,
  and with \<open>withoutEnlargement\<close> an axis of the input that is already shorter is left
  as it is. The overlay is composited at that size.
\<close>

definition resize_fill :: "resized \<Rightarrow> nat \<times> nat \<Rightarrow> int \<times> int" where
  "resize_fill request size' =
     (if withoutEnlargement request
      then (min (int (fst size')) (resize_width request),
            min (int (snd size')) (resize_height request))
      else (resize_width request, resize_height request))"

definition overlay_size :: "env \<Rightarrow> overlay \<Rightarrow> int \<times> int" where
  "overlay_size e ov = resize_fill (input ov) (image_size e (frame_file (input ov)))"

subsection \<open>The pipeline\<close>

text \<open>
  \<open>process\<close>: the first error aborts the run; an error that is not a
  \<open>VideoProcessingError\<close> is wrapped as \<open>UNKNOWN_ERROR\<close>; a stage that never settles
  leaves the run pending. (\<open>logDurationCategory\<close> only prints.)
\<close>

definition rethrow :: "exn \<Rightarrow> exn" where
  "rethrow err = (case err of VideoProcessingError c \<Rightarrow> VideoProcessingError c
                            | Error \<Rightarrow> VideoProcessingError UNKNOWN_ERROR)"

definition process :: "env \<Rightarrow> world \<Rightarrow> (exn + unit) option \<times> world" where
  "process e s =
     (case validateFFmpeg e of
        Inl err \<Rightarrow> (Some (Inl (rethrow err)), s)
      | Inr _ \<Rightarrow>
          (case validateFolderPermissions e s of
             (Inl err, s1) \<Rightarrow> (Some (Inl (rethrow err)), s1)
           | (Inr _, s1) \<Rightarrow>
               (case findVideo e of
                  Inl err \<Rightarrow> (Some (Inl (rethrow err)), s1)
                | Inr videoPath \<Rightarrow>
                    (case validateDuration e videoPath of
                       Inl err \<Rightarrow> (Some (Inl (rethrow err)), s1)
                     | Inr duration \<Rightarrow>
                         (case extractFrames e videoPath duration s1 of
                            (None, s2) \<Rightarrow> (None, s2)
                          | (Some (Inl err), s2) \<Rightarrow> (Some (Inl (rethrow err)), s2)
                          | (Some (Inr frameFiles), s2) \<Rightarrow>
                              (case createGrids e frameFiles s2 of
                                 (Inl err, s3) \<Rightarrow> (Some (Inl (rethrow err)), s3)
                               | (Inr _, s3) \<Rightarrow> (Some (Inr ()), s3)))))))"

subsection \<open>Names used in the statements\<close>

text \<open>
  The entry names and paths that the code builds with its template literals, as
  functions of the index.
\<close>

definition frameName :: "nat \<Rightarrow> string" where
  "frameName k = ''frame_'' @ padStart 3 CHR ''0'' (String (int k)) @ ''.jpg''"

definition framePath :: "env \<Rightarrow> nat \<Rightarrow> string" where
  "framePath e k = path_join (framesFolder (cwd e)) (frameName k)"

definition gridName :: "nat \<Rightarrow> string" where
  "gridName i = ''grid_'' @ padStart 3 CHR ''0'' (String (int i)) @ ''.jpg''"

definition gridPath :: "env \<Rightarrow> nat \<Rightarrow> string" where
  "gridPath e i = path_join (gridFolder (cwd e)) (gridName i)"

text \<open>
  What \<open>extractFrames\<close> and \<open>createGrids\<close> compute on the way: the spacing of the middle
  frames, the number of batches, the orders in which the concurrent operations
  complete, the timestamp asked for frame \<open>k\<close>, and the composite built from a batch.
\<close>

definition spacing :: "rat \<Rightarrow> rat" where
  "spacing d = (d - 1) / of_int (frameCount d - 2)"

definition middleOrder :: "env \<Rightarrow> rat \<Rightarrow> nat list" where
  "middleOrder e d = completion_order (completes_next e) [0 ..< nat (frameCount d - 2)]"

definition frameTime :: "rat \<Rightarrow> nat \<Rightarrow> rat" where
  "frameTime d k =
     (if k = 0 then 0
      else if int k = frameCount d - 1 then d - 1 / 10
      else of_nat k * spacing d)"

definition numGrids :: "nat \<Rightarrow> nat" where
  "numGrids n = nat \<lceil>(of_nat n :: rat) / 4\<rceil>"

definition gridOrder :: "env \<Rightarrow> nat \<Rightarrow> nat list" where
  "gridOrder e n = completion_order (completes_next e) [0 ..< numGrids n]"

definition gridComposite :: "string list \<Rightarrow> composite" where
  "gridComposite batch =
     \<lparr>canvas_width = 1920, canvas_height = 1080, background = (0, 0, 0),
      overlays = map (\<lambda>k. \<lparr>input = \<lparr>frame_file = batch ! k, resize_width = 958,
                                      resize_height = 538, withoutEnlargement = True\<rparr>,
                             top_px = int (k div 2) * 540 + 1,
                             left_px = int (k mod 2) * 960 + 1\<rparr>)
                   [0 ..< min 4 (length batch)]\<rparr>"

text \<open>
  The frames folder, the returned list and the grid folder of a run that returns,
  written without reference to the completion order.
\<close>

definition framesWritten :: "string \<Rightarrow> rat \<Rightarrow> (string, still) fmap" where
  "framesWritten v d =
     fmupd (frameName (nat (frameCount d - 1))) \<lparr>video = v, timestamp = d - 1 / 10\<rparr>
       (fold (\<lambda>i. fmupd (frameName (Suc i)) \<lparr>video = v, timestamp = (of_nat i + 1) * spacing d\<rparr>)
          [0 ..< nat (frameCount d - 2)]
          (fmupd (frameName 0) \<lparr>video = v, timestamp = 0\<rparr> fmempty))"

definition filesReturned :: "string \<Rightarrow> rat \<Rightarrow> string list" where
  "filesReturned dir d =
     sort (path_join dir (frameName 0)
           # map (\<lambda>i. path_join dir (frameName (Suc i))) [0 ..< nat (frameCount d - 2)]
           @ [path_join dir (frameName (nat (frameCount d - 1)))])"


text \<open>
  Observations of a state: the timestamps of the stills stored under the entry names of
  a list of paths; the entries of a folder that may not exist; and that every entry of
  the frames folder (of the grid folder) was written by a decoder invocation (by a
  composition) completed after state \<open>s0\<close>. The decimal value of a string of digits
  is used to tell entry names apart.
\<close>

definition frame_timestamps :: "world \<Rightarrow> string list \<Rightarrow> rat option list" where
  "frame_timestamps s files =
     map (\<lambda>p. case frames s of
                 None \<Rightarrow> None
               | Some dir \<Rightarrow> map_option timestamp (fmlookup dir (basename p))) files"

definition entries :: "(string, 'a) fmap option \<Rightarrow> (string, 'a) fmap" where
  "entries dir = (case dir of None \<Rightarrow> fmempty | Some m \<Rightarrow> m)"

definition frames_fresh :: "env \<Rightarrow> world \<Rightarrow> world \<Rightarrow> bool" where
  "frames_fresh e s0 s \<longleftrightarrow>
     (\<exists>dir new. frames s = Some dir \<and> extracted s = extracted s0 @ new
        \<and> (\<forall>name. name |\<in>| fmdom dir \<longrightarrow>
              (\<exists>t. (t, path_join (framesFolder (cwd e)) name) \<in> set new)))"

definition grid_fresh :: "env \<Rightarrow> world \<Rightarrow> world \<Rightarrow> bool" where
  "grid_fresh e s0 s \<longleftrightarrow>
     (\<exists>dir new. grid s = Some dir \<and> composed s = composed s0 @ new
        \<and> (\<forall>name. name |\<in>| fmdom dir \<longrightarrow> path_join (gridFolder (cwd e)) name \<in> set new))"

definition decimal_value :: "string \<Rightarrow> nat" where
  "decimal_value str = foldl (\<lambda>acc c. 10 * acc + (of_char c - 48)) 0 str"

text \<open>
  A choice function that makes the pending operations complete in a given order: it
  picks, among the pending ones, the one that comes first in that order.
\<close>

definition picks :: "nat list \<Rightarrow> nat list \<Rightarrow> nat" where
  "picks order pending =
     (case filter (\<lambda>y. y \<in> set pending) order of
        [] \<Rightarrow> 0
      | z # _ \<Rightarrow> length (takeWhile (\<lambda>x. x \<noteq> z) pending))"

text \<open>An environment in which no external call of the two output stages fails.\<close>

definition cooperative :: "env \<Rightarrow> bool" where
  "cooperative e \<longleftrightarrow>
     (\<forall>p. mkdir_ok e p) \<and> (\<forall>p. readdir_ok e p) \<and> (\<forall>p. unlink_ok e p)
     \<and> (\<forall>v t. ffmpeg_opens e v t) \<and> (\<forall>v t p. ffmpeg_ok e v t p)
     \<and> (\<forall>fs p. sharp_ok e fs p)"

text \<open>
  Sample environments and states on which the statements are evaluated: a working
  environment with one nine-second video of 1920 by 1080 pixels, in which the pending
  operation started last completes first; variants with a video of 301 seconds, with no
  decoder, with no video, with two videos, and with one frame file of 320 by 240 pixels;
  a state whose folders hold a stale frame and a stale grid; a state with empty folders;
  and a list of six frame paths.
\<close>

definition sample_env :: env where
  "sample_env =
     \<lparr>cwd = ''/work'', ffmpeg_version_ok = True, source_readable = True,
      readdir_source = Some [''notes.txt'', ''Demo.MP4''],
      stat_size = (\<lambda>_. Some 4096),
      getVideoDurationInSeconds = (\<lambda>_. Some (Num 9)),
      mkdir_ok = (\<lambda>_. True), readdir_ok = (\<lambda>_. True), unlink_ok = (\<lambda>_. True),
      ffmpeg_opens = (\<lambda>_ _. True), ffmpeg_ok = (\<lambda>_ _ _. True),
      image_size = (\<lambda>_. (1920, 1080)), sharp_ok = (\<lambda>_ _. True),
      completes_next = (\<lambda>pending. length pending - 1)\<rparr>"

definition long_video_env :: env where
  "long_video_env = sample_env\<lparr>getVideoDurationInSeconds := (\<lambda>_. Some (Num 301))\<rparr>"

definition no_decoder_env :: env where
  "no_decoder_env = sample_env\<lparr>ffmpeg_version_ok := False, readdir_source := Some [''notes.txt'']\<rparr>"

definition no_video_env :: env where
  "no_video_env = sample_env\<lparr>readdir_source := Some [''notes.txt'']\<rparr>"

definition two_videos_env :: env where
  "two_videos_env = sample_env\<lparr>readdir_source := Some [''a.mp4'', ''b.MOV'']\<rparr>"

definition small_frame_env :: env where
  "small_frame_env =
     sample_env\<lparr>image_size := (\<lambda>p. if p = ''/f/b.jpg'' then (320, 240) else (1920, 1080))\<rparr>"

definition stale_world :: world where
  "stale_world =
     \<lparr>frames = Some (fmupd ''frame_007.jpg'' \<lparr>video = ''old.mp4'', timestamp = 3\<rparr> fmempty),
      grid = Some (fmupd ''grid_009.jpg''
                     \<lparr>canvas_width = 1920, canvas_height = 1080, background = (0, 0, 0),
                      overlays = []\<rparr> fmempty),
      extracted = [], composed = []\<rparr>"

definition empty_world :: world where
  "empty_world = \<lparr>frames = Some fmempty, grid = Some fmempty, extracted = [], composed = []\<rparr>"

definition six_frames :: "string list" where
  "six_frames = [''/f/0.jpg'', ''/f/1.jpg'', ''/f/2.jpg'', ''/f/3.jpg'', ''/f/4.jpg'', ''/f/5.jpg'']"

declare string_of_nat.simps [simp del]

declare completion_order.simps [simp del]

section \<open>The sampling plan is the step table\<close>

text \<open>
  C4. For every duration \<open>d\<close> in seconds (in particular for \<open>0 < d \<le> 300\<close>) the
  classifier, called as the pipeline calls it (with \<open>d / 60\<close>), returns the plan of the
  step table: interval 2 and at most 16 frames while \<open>d / 60 \<le> 0.5\<close>, 3 and 20 up to
  one minute, 4 and 28 up to two, 5 and 32 up to three, 6 and 36 up to four, 7 and 40
  otherwise; in seconds the steps are at 30, 60, 120, 180 and 240. The function is
  total and has no error value: its result type is the plan itself.
\<close>

theorem getFrameConfig_step_table:
  "getFrameConfig (d / 60) =
     (if d / 60 \<le> 1 / 2 then \<lparr>interval = 2, maxFrames = 16\<rparr>
      else if 1 / 2 < d / 60 \<and> d / 60 \<le> 1 then \<lparr>interval = 3, maxFrames = 20\<rparr>
      else if 1 < d / 60 \<and> d / 60 \<le> 2 then \<lparr>interval = 4, maxFrames = 28\<rparr>
      else if 2 < d / 60 \<and> d / 60 \<le> 3 then \<lparr>interval = 5, maxFrames = 32\<rparr>
      else if 3 < d / 60 \<and> d / 60 \<le> 4 then \<lparr>interval = 6, maxFrames = 36\<rparr>
      else \<lparr>interval = 7, maxFrames = 40\<rparr>)
   \<and> getFrameConfig (d / 60) =
     (if d \<le> 30 then \<lparr>interval = 2, maxFrames = 16\<rparr>
      else if d \<le> 60 then \<lparr>interval = 3, maxFrames = 20\<rparr>
      else if d \<le> 120 then \<lparr>interval = 4, maxFrames = 28\<rparr>
      else if d \<le> 180 then \<lparr>interval = 5, maxFrames = 32\<rparr>
      else if d \<le> 240 then \<lparr>interval = 6, maxFrames = 36\<rparr>
      else \<lparr>interval = 7, maxFrames = 40\<rparr>)"
  by (simp add: getFrameConfig_def)

text \<open>
  C9. Both fields of the plan are monotonically non-decreasing in the duration: for
  \<open>d1 \<le> d2\<close> (in particular within \<open>0 < d1\<close>, \<open>d2 \<le> 300\<close>) the plan for \<open>d2\<close> has an
  interval and a frame ceiling at least those of the plan for \<open>d1\<close>.
\<close>

theorem getFrameConfig_mono:
  assumes "d1 \<le> d2"
  shows "interval (getFrameConfig (d1 / 60)) \<le> interval (getFrameConfig (d2 / 60))
       \<and> maxFrames (getFrameConfig (d1 / 60)) \<le> maxFrames (getFrameConfig (d2 / 60))"
  using assms by (simp add: getFrameConfig_def)

theorem getFrameConfig_mono_witness:
  "(30 :: rat) \<le> 31
   \<and> interval (getFrameConfig (30 / 60)) = 2 \<and> interval (getFrameConfig (31 / 60)) = 3
   \<and> maxFrames (getFrameConfig (30 / 60)) = 16 \<and> maxFrames (getFrameConfig (31 / 60)) = 20
   \<and> interval (getFrameConfig (30 / 60)) \<le> interval (getFrameConfig (31 / 60))
   \<and> maxFrames (getFrameConfig (30 / 60)) \<le> maxFrames (getFrameConfig (31 / 60))"
  using getFrameConfig_mono [of 30 31] by (simp add: getFrameConfig_def)

section \<open>Strings, names and completion orders\<close>

text \<open>
  A padded decimal numeral determines its number, so entry names with different
  indices differ; entry names hold no path separator, so the entry name of a path built
  by \<open>path_join\<close> is the name it was built from; and a completion order is a
  permutation of the pending operations, whatever the environment picks.
\<close>

lemma of_char_digit_char: "n < 10 \<Longrightarrow> of_char (digit_char n) = (48 + n :: nat)"
  by (simp add: digit_char_def)

lemma decimal_value_snoc: "decimal_value (str @ [c]) = 10 * decimal_value str + (of_char c - 48)"
  by (simp add: decimal_value_def)

lemma decimal_value_string_of_nat: "decimal_value (string_of_nat n) = n"
proof (induction n rule: string_of_nat.induct)
  case (1 n)
  show ?case
  proof (cases "n < 10")
    case True
    then show ?thesis
      by (simp add: string_of_nat.simps [of n] decimal_value_def of_char_digit_char)
  next
    case False
    with 1 show ?thesis
      by (simp add: string_of_nat.simps [of n] decimal_value_snoc of_char_digit_char)
  qed
qed

lemma decimal_value_zeros: "decimal_value (replicate k CHR ''0'' @ str) = decimal_value str"
  by (induction k) (simp_all add: decimal_value_def)

lemma decimal_value_padStart:
  "decimal_value (padStart m CHR ''0'' (String (int n))) = n"
  by (simp add: padStart_def String_def decimal_value_zeros decimal_value_string_of_nat)

lemma string_of_nat_digits: "set (string_of_nat n) \<subseteq> digit_char ` {..<10}"
proof (induction n rule: string_of_nat.induct)
  case (1 n)
  show ?case
  proof (cases "n < 10")
    case True
    then show ?thesis by (simp add: string_of_nat.simps [of n])
  next
    case False
    with 1 show ?thesis by (simp add: string_of_nat.simps [of n])
  qed
qed

lemma digit_char_not_slash: "n < 10 \<Longrightarrow> digit_char n \<noteq> CHR ''/''"
  using of_char_digit_char [of n] by (auto simp del: of_char_eq_iff)

lemma slash_notin_number: "CHR ''/'' \<notin> set (padStart m CHR ''0'' (String (int n)))"
proof -
  have "CHR ''/'' \<notin> set (string_of_nat n)"
  proof
    assume "CHR ''/'' \<in> set (string_of_nat n)"
    then have "CHR ''/'' \<in> digit_char ` {..<10}"
      using string_of_nat_digits [of n] by (rule rev_subsetD)
    then obtain k where "k < 10" and "CHR ''/'' = digit_char k"
      by (elim imageE) simp
    then show False using digit_char_not_slash [of k] by simp
  qed
  then show ?thesis by (simp add: padStart_def String_def)
qed

lemma basename_path_join: "CHR ''/'' \<notin> set entry \<Longrightarrow> basename (path_join dir entry) = entry"
  by (simp add: basename_def path_join_def takeWhile_append)

lemma mset_completion_order: "mset (completion_order pick pending) = mset pending"
proof (induction pick pending rule: completion_order.induct)
  case (1 pick pending)
  show ?case
  proof (cases "pending = []")
    case True
    then show ?thesis by (simp add: completion_order.simps [of pick "[]"])
  next
    case False
    define k where "k = pick pending mod length pending"
    have k: "k < length pending" using False by (simp add: k_def)
    have ih: "mset (completion_order pick (take k pending @ drop (Suc k) pending))
                = mset (take k pending @ drop (Suc k) pending)"
      using 1 [OF False k_def] .
    have "mset pending = mset (take k pending @ pending ! k # drop (Suc k) pending)"
      using id_take_nth_drop [OF k] by simp
    then show ?thesis
      using False ih by (simp add: completion_order.simps [of pick pending] Let_def k_def)
  qed
qed

lemma set_completion_order: "set (completion_order pick pending) = set pending"
  using mset_completion_order [of pick pending] by (metis set_mset_mset)

lemma distinct_completion_order: "distinct (completion_order pick pending) = distinct pending"
  using mset_completion_order [of pick pending] by (metis mset_eq_imp_distinct_iff)

lemma completion_order_picks_suffix:
  assumes "distinct (pre @ zs)" and "mset p = mset zs"
  shows "completion_order (picks (pre @ zs)) p = zs"
  using assms
proof (induction zs arbitrary: pre p)
  case Nil
  then show ?case by (simp add: completion_order.simps [of _ "[]"])
next
  case (Cons z zs)
  have setp: "set p = set (z # zs)" using Cons.prems(2) by (metis set_mset_mset)
  have distp: "distinct p" using Cons.prems by (metis distinct_append mset_eq_imp_distinct_iff)
  have ne: "p \<noteq> []" using Cons.prems(2) by auto
  have "filter (\<lambda>y. y \<in> set p) pre = []"
    using Cons.prems(1) setp by (auto simp: filter_empty_conv)
  then have "filter (\<lambda>y. y \<in> set p) (pre @ z # zs) = z # filter (\<lambda>y. y \<in> set p) zs"
    using setp by simp
  then have pk: "picks (pre @ z # zs) p = length (takeWhile (\<lambda>x. x \<noteq> z) p)"
    by (simp add: picks_def)
  define k where "k = length (takeWhile (\<lambda>x. x \<noteq> z) p)"
  have zin: "z \<in> set p" using setp by simp
  have klt: "k < length p"
  proof (rule ccontr)
    assume "\<not> k < length p"
    then have "length (takeWhile (\<lambda>x. x \<noteq> z) p) = length p"
      using length_takeWhile_le [of "\<lambda>x. x \<noteq> z" p] by (simp add: k_def)
    then have "takeWhile (\<lambda>x. x \<noteq> z) p = p"
      by (metis takeWhile_dropWhile_id append_eq_conv_conj length_0_conv length_append add_diff_cancel_left' add.right_neutral dropWhile_eq_Nil_conv takeWhile_eq_all_conv)
    then show False using zin by (auto simp: takeWhile_eq_all_conv)
  qed
  have pz: "p ! k = z"
    using nth_length_takeWhile [of "\<lambda>x. x \<noteq> z" p] klt unfolding k_def by simp
  have p: "p = take k p @ z # drop (Suc k) p"
    using id_take_nth_drop [OF klt] pz by simp
  have "mset p = mset (take k p @ drop (Suc k) p) + {#z#}"
    by (subst p) simp
  then have rest: "mset (take k p @ drop (Suc k) p) = mset zs"
    using Cons.prems(2) by simp
  have "distinct ((pre @ [z]) @ zs)" using Cons.prems(1) by simp
  from Cons.IH [OF this rest]
  have ih: "completion_order (picks (pre @ z # zs)) (take k p @ drop (Suc k) p) = zs"
    by simp
  have "completion_order (picks (pre @ z # zs)) p
          = p ! k # completion_order (picks (pre @ z # zs)) (take k p @ drop (Suc k) p)"
    using ne klt by (subst completion_order.simps) (simp add: pk k_def Let_def)
  then show ?case using ih pz by simp
qed

lemma completion_order_any:
  assumes "distinct order" and "mset order = mset pending"
  shows "\<exists>pick. completion_order pick pending = order"
  using completion_order_picks_suffix [of "[]" order pending] assms by auto

lemma frameName_no_slash: "CHR ''/'' \<notin> set (frameName k)"
  using slash_notin_number [of 3 k] by (simp add: frameName_def)

lemma gridName_no_slash: "CHR ''/'' \<notin> set (gridName k)"
  using slash_notin_number [of 3 k] by (simp add: gridName_def)

lemma basename_framePath: "basename (framePath e k) = frameName k"
  by (simp add: framePath_def basename_path_join frameName_no_slash)

lemma frameName_inj: "frameName a = frameName b \<Longrightarrow> a = b"
proof -
  assume "frameName a = frameName b"
  then have "padStart 3 CHR ''0'' (String (int a)) = padStart 3 CHR ''0'' (String (int b))"
    by (simp add: frameName_def)
  then have "decimal_value (padStart 3 CHR ''0'' (String (int a)))
           = decimal_value (padStart 3 CHR ''0'' (String (int b)))"
    by simp
  then show "a = b" by (simp only: decimal_value_padStart)
qed

lemma gridName_inj: "gridName a = gridName b \<Longrightarrow> a = b"
proof -
  assume "gridName a = gridName b"
  then have "padStart 3 CHR ''0'' (String (int a)) = padStart 3 CHR ''0'' (String (int b))"
    by (simp add: gridName_def)
  then have "decimal_value (padStart 3 CHR ''0'' (String (int a)))
           = decimal_value (padStart 3 CHR ''0'' (String (int b)))"
    by simp
  then show "a = b" by (simp only: decimal_value_padStart)
qed

lemma frameName_0: "frameName 0 = ''frame_000.jpg''"
  by code_simp

lemma fmlookup_fold_other:
  "k \<notin> key ` set xs \<Longrightarrow> fmlookup (fold (\<lambda>i. fmupd (key i) (val i)) xs m) k = fmlookup m k"
  by (induction xs arbitrary: m) auto

lemma fmlookup_fold_written:
  "inj_on key (set xs) \<Longrightarrow> distinct xs \<Longrightarrow> x \<in> set xs \<Longrightarrow>
   fmlookup (fold (\<lambda>i. fmupd (key i) (val i)) xs m) (key x) = Some (val x)"
proof (induction xs arbitrary: m)
  case Nil
  then show ?case by simp
next
  case (Cons a xs)
  show ?case
  proof (cases "x = a")
    case True
    have "key a \<notin> key ` set xs"
      using Cons.prems(1,2) by (auto simp: inj_on_def)
    then show ?thesis using True by (simp add: fmlookup_fold_other)
  next
    case False
    then have "x \<in> set xs" using Cons.prems(3) by simp
    moreover have "inj_on key (set xs)" using Cons.prems(1) by (simp add: inj_on_def)
    ultimately show ?thesis using Cons.IH Cons.prems(2) by simp
  qed
qed

lemma fmdom_fold_upd:
  "fmdom (fold (\<lambda>i. fmupd (key i) (val i)) xs m) = fset_of_list (map key xs) |\<union>| fmdom m"
  by (induction xs arbitrary: m) auto

section \<open>What a successful extraction returns\<close>

text \<open>
  A run of \<open>extractFrames\<close> that returns has emptied the frames folder, extracted the
  first frame, the middle frames in their completion order and the last frame, each to
  a path where no file was, and returns the sorted paths: lemma \<open>extractFrames_Inr\<close>
  gives the list, the folder and the log of decoder invocations.
\<close>

lemma extractFrame_Inr:
  assumes "extractFrame e v t p s = (Some (Inr u), s')"
  shows "\<exists>dir. frames s = Some dir \<and> fmlookup dir (basename p) = None
           \<and> ffmpeg_opens e v t \<and> ffmpeg_ok e v t p
           \<and> s' = s\<lparr>frames := Some (fmupd (basename p) \<lparr>video = v, timestamp = t\<rparr> dir),
                    extracted := extracted s @ [(t, p)]\<rparr>"
  using assms by (auto simp: extractFrame_def split: option.splits if_splits)

lemma extractFrame_existing:
  assumes "frames s = Some dir" and "fmlookup dir (basename p) = Some old"
  shows "extractFrame e v t p s = (if ffmpeg_opens e v t then None else Some (Inl Error), s)"
  using assms by (simp add: extractFrame_def)

lemma unlinkAll_Inr:
  assumes "unlinkAll e folder dir = (Inr u, dir')"
  shows "dir' = fmempty"
proof -
  from assms have p: "fmpred (\<lambda>file _. unlink_ok e (path_join folder file)) dir"
    and d: "dir' = fmfilter (\<lambda>file. \<not> unlink_ok e (path_join folder file)) dir"
    by (auto simp: unlinkAll_def split: if_splits)
  show ?thesis
    unfolding d
  proof (rule fmap_ext)
    fix x
    show "fmlookup (fmfilter (\<lambda>file. \<not> unlink_ok e (path_join folder file)) dir) x
            = fmlookup fmempty x"
      using p by (cases "fmlookup dir x") (auto dest: fmpredD)
  qed
qed

lemma prepareOutputFolder_Inr:
  assumes "prepareOutputFolder e s = (Inr u, s1)"
  shows "s1 = s\<lparr>frames := Some fmempty\<rparr>"
  using assms
  by (auto simp: prepareOutputFolder_def split: option.splits if_splits sum.splits prod.splits
        dest: unlinkAll_Inr)

lemma middle_path:
  "path_join (framesFolder (cwd e)) (''frame_'' @ padStart 3 CHR ''0'' (String (int i + 1)) @ ''.jpg'')
     = framePath e (Suc i)"
  by (simp add: framePath_def frameName_def add.commute)

lemma extractMiddle_Cons:
  "extractMiddle e v iv (i # rest) acc s =
     (case extractFrame e v ((of_nat i + 1) * iv) (framePath e (Suc i)) s of
        (None, s1) \<Rightarrow>
          (case extractMiddle e v iv rest acc s1 of
             (Some (Inl err), s2) \<Rightarrow> (Some (Inl err), s2)
           | (_, s2) \<Rightarrow> (None, s2))
      | (Some (Inl err), s1) \<Rightarrow>
          (case extractMiddle e v iv rest acc s1 of (_, s2) \<Rightarrow> (Some (Inl err), s2))
      | (Some (Inr _), s1) \<Rightarrow> extractMiddle e v iv rest (acc @ [framePath e (Suc i)]) s1)"
  by (simp only: extractMiddle.simps Let_def middle_path)

lemma extractMiddle_Inr:
  assumes "extractMiddle e v iv order acc s = (Some (Inr files), s')" and "frames s = Some dir"
  shows "files = acc @ map (\<lambda>i. framePath e (Suc i)) order
       \<and> (\<forall>i \<in> set order. ffmpeg_ok e v ((of_nat i + 1) * iv) (framePath e (Suc i)))
       \<and> s' = s\<lparr>frames := Some (fold (\<lambda>i. fmupd (frameName (Suc i))
                                        \<lparr>video = v, timestamp = (of_nat i + 1) * iv\<rparr>) order dir),
                extracted := extracted s
                   @ map (\<lambda>i. ((of_nat i + 1) * iv, framePath e (Suc i))) order\<rparr>"
  using assms
proof (induction order arbitrary: acc s dir)
  case Nil
  then show ?case by simp
next
  case (Cons i rest)
  let ?t = "(of_nat i + 1) * iv" and ?p = "framePath e (Suc i)"
  from Cons.prems(1) obtain u s1 where
    1: "extractFrame e v ?t ?p s = (Some (Inr u), s1)" and
    2: "extractMiddle e v iv rest (acc @ [?p]) s1 = (Some (Inr files), s')"
    unfolding extractMiddle_Cons
    by (auto split: prod.splits sum.splits option.splits)
  from extractFrame_Inr [OF 1] Cons.prems(2) have
    ok: "ffmpeg_ok e v ?t ?p" and
    s1: "s1 = s\<lparr>frames := Some (fmupd (frameName (Suc i)) \<lparr>video = v, timestamp = ?t\<rparr> dir),
                 extracted := extracted s @ [(?t, ?p)]\<rparr>"
    by (auto simp: basename_framePath)
  have "frames s1 = Some (fmupd (frameName (Suc i)) \<lparr>video = v, timestamp = ?t\<rparr> dir)"
    by (simp add: s1)
  from Cons.IH [OF 2 this] ok show ?case by (simp add: s1)
qed

lemma frameCount_pos: "0 < d \<Longrightarrow> 1 \<le> frameCount d"
  by (simp add: frameCount_def getFrameConfig_def Let_def)

lemma frameCount_le_40: "frameCount d \<le> 40"
  by (simp add: frameCount_def getFrameConfig_def Let_def min_le_iff_disj)


lemma extractFrames_unfold:
  assumes "0 < d"
  shows "extractFrames e v d s =
     (case prepareOutputFolder e s of
        (Inl err, s1) \<Rightarrow> (Some (Inl err), s1)
      | (Inr _, s1) \<Rightarrow>
          (case extractFrame e v 0 (framePath e 0) s1 of
             (None, s2) \<Rightarrow> (None, s2)
           | (Some (Inl err), s2) \<Rightarrow> (Some (Inl err), s2)
           | (Some (Inr _), s2) \<Rightarrow>
               (case extractMiddle e v (spacing d) (middleOrder e d) [framePath e 0] s2 of
                  (None, s3) \<Rightarrow> (None, s3)
                | (Some (Inl err), s3) \<Rightarrow> (Some (Inl err), s3)
                | (Some (Inr frameFiles), s3) \<Rightarrow>
                    (case extractFrame e v (d - 1 / 10) (framePath e (nat (frameCount d - 1))) s3 of
                       (None, s4) \<Rightarrow> (None, s4)
                     | (Some (Inl err), s4) \<Rightarrow> (Some (Inl err), s4)
                     | (Some (Inr _), s4) \<Rightarrow>
                         (Some (Inr (sort (frameFiles @ [framePath e (nat (frameCount d - 1))]))),
                          s4)))))"
proof -
  have last: "frameName (nat (frameCount d - 1))
                = ''frame_'' @ padStart 3 CHR ''0'' (String (frameCount d - 1)) @ ''.jpg''"
    using frameCount_pos [OF assms] by (simp add: frameName_def)
  have fc: "min (\<lfloor>d / of_int (interval (getFrameConfig (d / 60)))\<rfloor> + 1)
                (maxFrames (getFrameConfig (d / 60))) = frameCount d"
    by (simp add: frameCount_def Let_def)
  show ?thesis
    unfolding extractFrames_def Let_def fc framePath_def last frameName_0
      spacing_def middleOrder_def
    by (rule refl)
qed

lemma extractFrames_calls:
  assumes "0 < d" and "extractFrames e v d s = (Some (Inr files), s')"
  shows "\<exists>u1 s1 u2 s2 mid s3 u4.
           prepareOutputFolder e s = (Inr u1, s1)
         \<and> extractFrame e v 0 (framePath e 0) s1 = (Some (Inr u2), s2)
         \<and> extractMiddle e v (spacing d) (middleOrder e d) [framePath e 0] s2
             = (Some (Inr mid), s3)
         \<and> extractFrame e v (d - 1 / 10) (framePath e (nat (frameCount d - 1))) s3
             = (Some (Inr u4), s')
         \<and> files = sort (mid @ [framePath e (nat (frameCount d - 1))])"
  using assms(2) unfolding extractFrames_unfold [OF assms(1)]
  by (auto split: prod.splits sum.splits option.splits)

lemma extractFrames_Inr:
  assumes "0 < d" and "extractFrames e v d s = (Some (Inr files), s')"
  shows "files = sort (framePath e 0 # map (\<lambda>i. framePath e (Suc i)) (middleOrder e d)
                         @ [framePath e (nat (frameCount d - 1))])
       \<and> s' = s\<lparr>frames := Some (fmupd (frameName (nat (frameCount d - 1)))
                                  \<lparr>video = v, timestamp = d - 1 / 10\<rparr>
                                  (fold (\<lambda>i. fmupd (frameName (Suc i))
                                           \<lparr>video = v, timestamp = (of_nat i + 1) * spacing d\<rparr>)
                                     (middleOrder e d)
                                     (fmupd (frameName 0) \<lparr>video = v, timestamp = 0\<rparr> fmempty))),
                extracted := extracted s
                  @ (0, framePath e 0)
                  # map (\<lambda>i. ((of_nat i + 1) * spacing d, framePath e (Suc i))) (middleOrder e d)
                  @ [(d - 1 / 10, framePath e (nat (frameCount d - 1)))]\<rparr>"
proof -
  let ?last = "framePath e (nat (frameCount d - 1))"
  from extractFrames_calls [OF assms] obtain u1 s1 u2 s2 mid s3 u4 where
    1: "prepareOutputFolder e s = (Inr u1, s1)" and
    2: "extractFrame e v 0 (framePath e 0) s1 = (Some (Inr u2), s2)" and
    3: "extractMiddle e v (spacing d) (middleOrder e d) [framePath e 0] s2 = (Some (Inr mid), s3)" and
    4: "extractFrame e v (d - 1 / 10) ?last s3 = (Some (Inr u4), s')" and
    5: "files = sort (mid @ [?last])"
    by blast
  have s1: "s1 = s\<lparr>frames := Some fmempty\<rparr>"
    using prepareOutputFolder_Inr [OF 1] .
  have s2: "s2 = s\<lparr>frames := Some (fmupd (frameName 0) \<lparr>video = v, timestamp = 0\<rparr> fmempty),
                   extracted := extracted s @ [(0, framePath e 0)]\<rparr>"
    using extractFrame_Inr [OF 2] by (auto simp: s1 basename_framePath)
  have "frames s2 = Some (fmupd (frameName 0) \<lparr>video = v, timestamp = 0\<rparr> fmempty)"
    by (simp add: s2)
  from extractMiddle_Inr [OF 3 this] have
    mid: "mid = [framePath e 0] @ map (\<lambda>i. framePath e (Suc i)) (middleOrder e d)" and
    s3: "s3 = s2\<lparr>frames := Some (fold (\<lambda>i. fmupd (frameName (Suc i))
                                        \<lparr>video = v, timestamp = (of_nat i + 1) * spacing d\<rparr>)
                                   (middleOrder e d)
                                   (fmupd (frameName 0) \<lparr>video = v, timestamp = 0\<rparr> fmempty)),
                   extracted := extracted s2
                     @ map (\<lambda>i. ((of_nat i + 1) * spacing d, framePath e (Suc i)))
                         (middleOrder e d)\<rparr>"
    by blast+
  have s': "s' = s3\<lparr>frames := Some (fmupd (frameName (nat (frameCount d - 1)))
                                     \<lparr>video = v, timestamp = d - 1 / 10\<rparr>
                                     (the (frames s3))),
                   extracted := extracted s3 @ [(d - 1 / 10, ?last)]\<rparr>"
    using extractFrame_Inr [OF 4] by (auto simp: basename_framePath)
  show ?thesis
    by (simp add: 5 mid s' s3 s2)
qed

lemma middleOrder_single: "frameCount d = 1 \<Longrightarrow> middleOrder e d = []"
  by (simp add: middleOrder_def completion_order.simps [of _ "[]"])

text \<open>
  A video shorter than two seconds has \<open>frameCount = 1\<close>: there is no middle frame and the
  path of the last frame is the path of the first. The last call then finds the still
  of the first one at its output path, so no such run returns a list; every run that
  returns has \<open>frameCount \<ge> 2\<close>.
\<close>

lemma extractFrames_single:
  assumes "0 < d" and "frameCount d = 1"
  shows "extractFrames e v d s =
     (case prepareOutputFolder e s of
        (Inl err, s1) \<Rightarrow> (Some (Inl err), s1)
      | (Inr _, s1) \<Rightarrow>
          (case extractFrame e v 0 (framePath e 0) s1 of
             (None, s2) \<Rightarrow> (None, s2)
           | (Some (Inl err), s2) \<Rightarrow> (Some (Inl err), s2)
           | (Some (Inr _), s2) \<Rightarrow>
               (if ffmpeg_opens e v (d - 1 / 10) then None else Some (Inl Error), s2)))"
proof -
  have last: "framePath e (nat (frameCount d - 1)) = framePath e 0"
    by (simp add: assms(2))
  have blocked: "extractFrame e v (d - 1 / 10) (framePath e 0) s2
                   = (if ffmpeg_opens e v (d - 1 / 10) then None else Some (Inl Error), s2)"
    if "extractFrame e v 0 (framePath e 0) s1 = (Some (Inr u), s2)" for s1 s2 u
  proof -
    from extractFrame_Inr [OF that] obtain dir where
      "frames s2 = Some (fmupd (frameName 0) \<lparr>video = v, timestamp = 0\<rparr> dir)"
      by (auto simp: basename_framePath)
    moreover have "fmlookup (fmupd (frameName 0) \<lparr>video = v, timestamp = 0\<rparr> dir)
                     (basename (framePath e 0)) = Some \<lparr>video = v, timestamp = 0\<rparr>"
      by (simp add: basename_framePath)
    ultimately show ?thesis by (rule extractFrame_existing)
  qed
  show ?thesis
    unfolding extractFrames_unfold [OF assms(1)] middleOrder_single [OF assms(2)] last
    by (auto simp: blocked split: prod.splits sum.splits option.splits)
qed

lemma extractFrames_Inr_frameCount:
  assumes "0 < d" and "extractFrames e v d s = (Some (Inr files), s')"
  shows "2 \<le> frameCount d"
proof (rule ccontr)
  assume "\<not> 2 \<le> frameCount d"
  then have fc: "frameCount d = 1" using frameCount_pos [OF assms(1)] by simp
  show False
    using assms(2) unfolding extractFrames_single [OF assms(1) fc]
    by (auto split: prod.splits sum.splits option.splits if_splits)
qed

section \<open>The middle frames\<close>

lemma set_middleOrder: "set (middleOrder e d) = {0 ..< nat (frameCount d - 2)}"
  by (simp add: middleOrder_def set_completion_order)

lemma distinct_middleOrder: "distinct (middleOrder e d)"
  by (simp add: middleOrder_def distinct_completion_order)



lemma middle_frame_written:
  assumes "0 < d" and "extractFrames e v d s = (Some (Inr files), s')"
    and "1 \<le> k" and "int k \<le> frameCount d - 2"
  shows "\<exists>dir. frames s' = Some dir
       \<and> fmlookup dir (frameName k) = Some \<lparr>video = v, timestamp = of_nat k * spacing d\<rparr>
       \<and> (of_nat k * spacing d, framePath e k) \<in> set (extracted s')"
proof -
  obtain i where k: "k = Suc i" using assms(3) by (cases k) auto
  have i: "i \<in> set (middleOrder e d)"
    using assms(4) by (simp add: set_middleOrder k)
  let ?val = "\<lambda>i. \<lparr>video = v, timestamp = (of_nat i + 1) * spacing d\<rparr>"
  let ?key = "\<lambda>i. frameName (Suc i)"
  let ?mid = "fold (\<lambda>i. fmupd (?key i) (?val i)) (middleOrder e d)
                (fmupd (frameName 0) \<lparr>video = v, timestamp = 0\<rparr> fmempty)"
  have inj: "inj_on ?key (set (middleOrder e d))"
    by (auto simp: inj_on_def dest: frameName_inj)
  have mid: "fmlookup ?mid (?key i) = Some (?val i)"
    using inj distinct_middleOrder i by (rule fmlookup_fold_written)
  have "k \<noteq> nat (frameCount d - 1)" using assms(4) by linarith
  then have ne: "frameName (nat (frameCount d - 1)) \<noteq> frameName k"
    using frameName_inj by blast
  have t: "(of_nat i + 1) * spacing d = of_nat k * spacing d"
    by (simp add: k add.commute)
  from extractFrames_Inr [OF assms(1,2)] have
    s': "s' = s\<lparr>frames := Some (fmupd (frameName (nat (frameCount d - 1)))
                                  \<lparr>video = v, timestamp = d - 1 / 10\<rparr> ?mid),
                  extracted := extracted s
                    @ (0, framePath e 0)
                    # map (\<lambda>i. ((of_nat i + 1) * spacing d, framePath e (Suc i))) (middleOrder e d)
                    @ [(d - 1 / 10, framePath e (nat (frameCount d - 1)))]\<rparr>"
    by blast
  have look: "fmlookup (fmupd (frameName (nat (frameCount d - 1)))
                          \<lparr>video = v, timestamp = d - 1 / 10\<rparr> ?mid) (frameName k)
                = Some \<lparr>video = v, timestamp = of_nat k * spacing d\<rparr>"
    using ne mid unfolding t by (simp add: k [symmetric])
  have "((of_nat i + 1) * spacing d, framePath e (Suc i))
          \<in> (\<lambda>i. ((of_nat i + 1) * spacing d, framePath e (Suc i))) ` set (middleOrder e d)"
    using i by (rule imageI)
  then have mem: "(of_nat k * spacing d, framePath e k) \<in> set (extracted s')"
    unfolding t by (simp add: s' k [symmetric])
  show ?thesis
    using look mem by (simp add: s')
qed

text \<open>
  C2. In a run that returns with \<open>frameCount \<ge> 3\<close>, the \<open>k\<close>-th middle frame
  (\<open>k = 1 .. frameCount - 2\<close>) is extracted at \<open>k * (d - 1) / (frameCount - 2)\<close>, the
  spacing the code computes, and not at a multiple of the plan's interval: the still
  under \<open>frame_<k>.jpg\<close> carries that timestamp, and the decoder was invoked with it.
\<close>

theorem middle_frame_timestamps:
  assumes "0 < d" and "3 \<le> frameCount d"
    and "extractFrames e v d s = (Some (Inr files), s')"
    and "1 \<le> k" and "int k \<le> frameCount d - 2"
  shows "\<exists>dir. frames s' = Some dir
       \<and> fmlookup dir (''frame_'' @ padStart 3 CHR ''0'' (String (int k)) @ ''.jpg'')
           = Some \<lparr>video = v, timestamp = of_nat k * (d - 1) / of_int (frameCount d - 2)\<rparr>
       \<and> (of_nat k * (d - 1) / of_int (frameCount d - 2),
           path_join (framesFolder (cwd e))
             (''frame_'' @ padStart 3 CHR ''0'' (String (int k)) @ ''.jpg''))
          \<in> set (extracted s')"
proof -
  have names: "''frame_'' @ padStart 3 CHR ''0'' (String (int k)) @ ''.jpg'' = frameName k"
    by (simp add: frameName_def)
  have t: "of_nat k * (d - 1) / of_int (frameCount d - 2) = of_nat k * spacing d"
    by (simp add: spacing_def)
  show ?thesis
    unfolding names t framePath_def [symmetric]
    using assms(1,3,4,5) by (rule middle_frame_written)
qed

theorem middle_frame_timestamps_witness:
  "(0 :: rat) < 9 \<and> frameCount 9 = 5 \<and> (1 :: nat) \<le> 2 \<and> int 2 \<le> frameCount 9 - 2
   \<and> fst (extractFrames sample_env ''/work/content/automate/Demo.MP4'' 9 stale_world)
       = Some (Inr [''/work/content/frames/frame_000.jpg'', ''/work/content/frames/frame_001.jpg'',
                    ''/work/content/frames/frame_002.jpg'', ''/work/content/frames/frame_003.jpg'',
                    ''/work/content/frames/frame_004.jpg''])
   \<and> (\<exists>dir. frames (snd (extractFrames sample_env ''/work/content/automate/Demo.MP4'' 9
                              stale_world)) = Some dir
          \<and> fmlookup dir ''frame_002.jpg''
              = Some \<lparr>video = ''/work/content/automate/Demo.MP4'', timestamp = 16 / 3\<rparr>)
   \<and> (16 / 3, ''/work/content/frames/frame_002.jpg'')
       \<in> set (extracted (snd (extractFrames sample_env ''/work/content/automate/Demo.MP4'' 9
                                stale_world)))
   \<and> (16 / 3 :: rat) \<noteq> 2 * of_int (interval (getFrameConfig (9 / 60)))"
proof -
  let ?run = "extractFrames sample_env ''/work/content/automate/Demo.MP4'' 9 stale_world"
  let ?files = "[''/work/content/frames/frame_000.jpg'', ''/work/content/frames/frame_001.jpg'',
                 ''/work/content/frames/frame_002.jpg'', ''/work/content/frames/frame_003.jpg'',
                 ''/work/content/frames/frame_004.jpg'']"
  have r: "fst ?run = Some (Inr ?files)" by code_simp
  then have run: "?run = (Some (Inr ?files), snd ?run)" by (metis prod.collapse)
  have fc: "frameCount 9 = 5" by code_simp
  have 1: "(0 :: rat) < 9" by simp
  have 2: "3 \<le> frameCount 9" by (simp add: fc)
  have 4: "(1 :: nat) \<le> 2" by simp
  have 5: "int 2 \<le> frameCount 9 - 2" by (simp add: fc)
  have n: "''frame_'' @ padStart 3 CHR ''0'' (String (int 2)) @ ''.jpg'' = ''frame_002.jpg''"
    by code_simp
  have c: "cwd sample_env = ''/work''" by (simp add: sample_env_def)
  have p: "path_join (framesFolder ''/work'') ''frame_002.jpg'' = ''/work/content/frames/frame_002.jpg''"
    by code_simp
  have ne: "(16 / 3 :: rat) \<noteq> 2 * of_int (interval (getFrameConfig (9 / 60)))"
    by (simp add: getFrameConfig_def)
  have m: "(\<exists>dir. frames (snd ?run) = Some dir
              \<and> fmlookup dir ''frame_002.jpg''
                  = Some \<lparr>video = ''/work/content/automate/Demo.MP4'', timestamp = 16 / 3\<rparr>)
         \<and> (16 / 3, ''/work/content/frames/frame_002.jpg'') \<in> set (extracted (snd ?run))"
    using middle_frame_timestamps [OF 1 2 run 4 5] unfolding n c p fc by auto
  from 1 fc 4 5 r m ne show ?thesis by blast
qed

section \<open>Sorted frame files\<close>

text \<open>
  Below 1000, the three-digit names are ordered as their indices are, so the sorted list
  of a run with \<open>frameCount \<ge> 2\<close> is \<open>frame_000.jpg\<close> to \<open>frame_<frameCount - 1>.jpg\<close>
  in index order; the timestamps \<open>0\<close>, \<open>k * spacing\<close> and \<open>d - 0.1\<close> are strictly
  increasing in the index.
\<close>

lemma digit_char_less_iff: "a < 10 \<Longrightarrow> b < 10 \<Longrightarrow> digit_char a < digit_char b \<longleftrightarrow> a < b"
  by (simp add: less_char_def of_char_digit_char)

lemma digit_char_eq_iff: "a < 10 \<Longrightarrow> b < 10 \<Longrightarrow> digit_char a = digit_char b \<longleftrightarrow> a = b"
  using of_char_digit_char [of a] of_char_digit_char [of b] by (metis add_left_cancel)

lemma digit_char_0: "digit_char 0 = CHR ''0''"
  by code_simp

lemma pad3_digits:
  assumes "n < 1000"
  shows "padStart 3 CHR ''0'' (String (int n))
           = [digit_char (n div 100), digit_char (n div 10 mod 10), digit_char (n mod 10)]"
proof -
  consider "n < 10" | "10 \<le> n" "n < 100" | "100 \<le> n" by linarith
  then show ?thesis
  proof cases
    case 1
    then have "string_of_nat n = [digit_char n]"
      by (simp add: string_of_nat.simps [of n])
    with 1 show ?thesis
      by (simp add: padStart_def String_def digit_char_0 numeral_2_eq_2)
  next
    case 2
    then have "n div 10 < 10" by simp
    then have "string_of_nat (n div 10) = [digit_char (n div 10)]"
      by (simp add: string_of_nat.simps [of "n div 10"])
    with 2 have "string_of_nat n = [digit_char (n div 10), digit_char (n mod 10)]"
      by (simp add: string_of_nat.simps [of n])
    moreover have "n div 100 = 0" using 2 by simp
    moreover have "n div 10 mod 10 = n div 10" using 2 by simp
    ultimately show ?thesis
      by (simp add: padStart_def String_def digit_char_0)
  next
    case 3
    have a: "\<not> n div 10 < 10" using 3 by simp
    have b: "n div 10 div 10 < 10" using assms by simp
    have "string_of_nat (n div 10 div 10) = [digit_char (n div 10 div 10)]"
      using b by (simp add: string_of_nat.simps [of "n div 10 div 10"])
    then have "string_of_nat (n div 10)
                 = [digit_char (n div 10 div 10), digit_char (n div 10 mod 10)]"
      using a by (simp add: string_of_nat.simps [of "n div 10"])
    then have "string_of_nat n = [digit_char (n div 10 div 10), digit_char (n div 10 mod 10),
                                  digit_char (n mod 10)]"
      using 3 by (simp add: string_of_nat.simps [of n])
    moreover have "n div 10 div 10 = n div 100" by (simp add: div_mult2_eq)
    ultimately show ?thesis
      by (simp add: padStart_def String_def)
  qed
qed

lemma three_digits: "(i :: nat) = 100 * (i div 100) + (10 * (i div 10 mod 10) + i mod 10)"
proof -
  have "i mod (10 * 10) = 10 * (i div 10 mod 10) + i mod 10"
    by (rule mod_mult2_eq)
  then have "i mod 100 = 10 * (i div 10 mod 10) + i mod 10" by simp
  moreover have "i = 100 * (i div 100) + i mod 100" by simp
  ultimately show ?thesis by simp
qed

lemma digits_order:
  fixes i j :: nat
  assumes "i < j"
  shows "i div 100 < j div 100
      \<or> i div 100 = j div 100
        \<and> (i div 10 mod 10 < j div 10 mod 10
            \<or> i div 10 mod 10 = j div 10 mod 10 \<and> i mod 10 < j mod 10)"
proof -
  define a b c where "a = i div 100" and "b = i div 10 mod 10" and "c = i mod 10"
  define a' b' c' where "a' = j div 100" and "b' = j div 10 mod 10" and "c' = j mod 10"
  have i: "i = 100 * a + (10 * b + c)"
    unfolding a_def b_def c_def by (rule three_digits)
  have j: "j = 100 * a' + (10 * b' + c')"
    unfolding a'_def b'_def c'_def by (rule three_digits)
  have bd: "b < 10" "b' < 10" "c < 10" "c' < 10"
    unfolding b_def b'_def c_def c'_def by simp_all
  have "100 * a + (10 * b + c) < 100 * a' + (10 * b' + c')"
    using assms i j by simp
  then have "a < a' \<or> a = a' \<and> (b < b' \<or> b = b' \<and> c < c')"
    using bd by linarith
  then show ?thesis
    unfolding a_def b_def c_def a'_def b'_def c'_def .
qed

lemma append_less_cancel: "(p @ a < p @ b) = (a < (b :: string))"
  by (induction p) simp_all

lemma frameName_mono:
  assumes "i < j" and "j < 1000"
  shows "frameName i < frameName j"
proof -
  have i: "i < 1000" using assms by simp
  have d: "i div 100 < 10" "j div 100 < 10" "i div 10 mod 10 < 10" "j div 10 mod 10 < 10"
          "i mod 10 < 10" "j mod 10 < 10"
    using assms by simp_all
  from digits_order [OF assms(1)] have "padStart 3 CHR ''0'' (String (int i)) < padStart 3 CHR ''0'' (String (int j))"
    by (simp add: pad3_digits i assms(2) digit_char_less_iff digit_char_eq_iff d)
  then have "padStart 3 CHR ''0'' (String (int i)) @ ''.jpg''
           < padStart 3 CHR ''0'' (String (int j)) @ ''.jpg''"
    by (simp add: pad3_digits i assms(2))
  then show ?thesis
    unfolding frameName_def by (simp only: append_less_cancel)
qed

lemma framePath_mono: "i < j \<Longrightarrow> j < 1000 \<Longrightarrow> framePath e i < framePath e j"
  unfolding framePath_def path_join_def
  by (simp only: append_less_cancel frameName_mono)

lemma sorted_framePaths:
  assumes "n \<le> 1000"
  shows "sorted (map (framePath e) [0 ..< n])"
  unfolding sorted_iff_nth_mono_less
proof (intro allI impI)
  fix i j
  assume "i < j" and "j < length (map (framePath e) [0 ..< n])"
  then have "i < j" and "j < n" by simp_all
  then have "framePath e i < framePath e j"
    using assms by (intro framePath_mono) simp_all
  then show "map (framePath e) [0 ..< n] ! i \<le> map (framePath e) [0 ..< n] ! j"
    using \<open>i < j\<close> \<open>j < n\<close> by simp
qed

lemma frameCount_ge_2: "2 \<le> frameCount d \<Longrightarrow> 2 \<le> d"
  by (auto simp: frameCount_def getFrameConfig_def Let_def le_floor_iff split: if_splits)

lemma frameCount_ge_3: "3 \<le> frameCount d \<Longrightarrow> 4 \<le> d"
  by (auto simp: frameCount_def getFrameConfig_def Let_def le_floor_iff split: if_splits)

lemma sorted_frame_files:
  assumes "0 < d" and "2 \<le> frameCount d" and "extractFrames e v d s = (Some (Inr files), s')"
  shows "files = map (framePath e) [0 ..< nat (frameCount d)]"
proof -
  define n where "n = nat (frameCount d - 2)"
  have fc: "nat (frameCount d) = Suc (Suc n)" and last: "nat (frameCount d - 1) = Suc n"
    using assms(2) by (simp_all add: n_def)
  let ?pushed = "framePath e 0 # map (\<lambda>i. framePath e (Suc i)) (middleOrder e d)
                   @ [framePath e (Suc n)]"
  have "mset (middleOrder e d) = mset [0 ..< n]"
    unfolding middleOrder_def n_def by (rule mset_completion_order)
  then have "mset (map (\<lambda>i. framePath e (Suc i)) (middleOrder e d))
               = mset (map (\<lambda>i. framePath e (Suc i)) [0 ..< n])"
    by (metis mset_map)
  also have "map (\<lambda>i. framePath e (Suc i)) [0 ..< n] = map (framePath e) [Suc 0 ..< Suc n]"
    by (simp add: map_Suc_upt [symmetric] del: upt_Suc)
  finally have "mset ?pushed = mset (framePath e 0 # map (framePath e) [Suc 0 ..< Suc n]
                                       @ [framePath e (Suc n)])"
    by simp
  also have "framePath e 0 # map (framePath e) [Suc 0 ..< Suc n] @ [framePath e (Suc n)]
               = map (framePath e) [0 ..< Suc (Suc n)]"
  proof -
    have "[0 ..< Suc n] = 0 # [Suc 0 ..< Suc n]"
      by (rule upt_conv_Cons) simp
    moreover have "[0 ..< Suc (Suc n)] = [0 ..< Suc n] @ [Suc n]"
      by (simp only: upt_Suc) simp
    ultimately have "[0 ..< Suc (Suc n)] = 0 # [Suc 0 ..< Suc n] @ [Suc n]"
      by simp
    then show ?thesis by (simp only: list.map map_append)
  qed
  finally have m: "mset (map (framePath e) [0 ..< Suc (Suc n)]) = mset ?pushed" by simp
  have "Suc (Suc n) \<le> 1000"
    using frameCount_le_40 [of d] fc by linarith
  then have "sorted (map (framePath e) [0 ..< Suc (Suc n)])" by (rule sorted_framePaths)
  with m have "sort ?pushed = map (framePath e) [0 ..< Suc (Suc n)]"
    by (rule properties_for_sort)
  then show ?thesis
    using extractFrames_Inr [OF assms(1,3)] by (simp only: fc last)
qed

lemma frame_lookup:
  assumes "0 < d" and "2 \<le> frameCount d" and "extractFrames e v d s = (Some (Inr files), s')"
    and "int k < frameCount d"
  shows "\<exists>dir. frames s' = Some dir
       \<and> fmlookup dir (frameName k) = Some \<lparr>video = v, timestamp = frameTime d k\<rparr>"
proof -
  let ?mid = "fold (\<lambda>i. fmupd (frameName (Suc i))
                        \<lparr>video = v, timestamp = (of_nat i + 1) * spacing d\<rparr>)
                (middleOrder e d)
                (fmupd (frameName 0) \<lparr>video = v, timestamp = 0\<rparr> fmempty)"
  from extractFrames_Inr [OF assms(1,3)] have
    dir: "frames s' = Some (fmupd (frameName (nat (frameCount d - 1)))
                              \<lparr>video = v, timestamp = d - 1 / 10\<rparr> ?mid)"
    by simp
  consider "int k = frameCount d - 1" | "k = 0" "int k \<noteq> frameCount d - 1"
    | "1 \<le> k" "int k \<le> frameCount d - 2"
    using assms(4) by linarith
  then show ?thesis
  proof cases
    case 1
    then have "nat (frameCount d - 1) = k" and "k \<noteq> 0" using assms(2) by simp_all
    then show ?thesis using 1 by (simp add: dir frameTime_def)
  next
    case 2
    have "frameName 0 \<notin> (\<lambda>i. frameName (Suc i)) ` set (middleOrder e d)"
      using frameName_inj by fastforce
    then have "fmlookup ?mid (frameName 0) = Some \<lparr>video = v, timestamp = 0\<rparr>"
      by (simp add: fmlookup_fold_other)
    moreover have "frameName (nat (frameCount d - 1)) \<noteq> frameName 0"
      using assms(2) frameName_inj [of "nat (frameCount d - 1)" 0] by auto
    ultimately show ?thesis using 2 by (simp add: dir frameTime_def)
  next
    case 3
    then have "frameTime d k = of_nat k * spacing d"
      by (simp add: frameTime_def)
    then show ?thesis
      using middle_frame_written [OF assms(1,3) 3] by auto
  qed
qed

lemma frameTime_mono:
  assumes "2 \<le> frameCount d" and "i < j" and "int j < frameCount d"
  shows "frameTime d i < frameTime d j"
proof -
  have d2: "2 \<le> d" using assms(1) by (rule frameCount_ge_2)
  have j0: "j \<noteq> 0" using assms(2) by simp
  have i_mid: "int i \<noteq> frameCount d - 1" using assms(2,3) by linarith
  show ?thesis
  proof (cases "int j = frameCount d - 1")
    case True
    show ?thesis
    proof (cases "i = 0")
      case True
      then show ?thesis using d2 \<open>int j = frameCount d - 1\<close> j0 by (simp add: frameTime_def)
    next
      case False
      then have fc3: "3 \<le> frameCount d" using assms(2) True by linarith
      then have pos: "0 < (of_int (frameCount d - 2) :: rat)" by simp
      have d4: "4 \<le> d" using fc3 by (rule frameCount_ge_3)
      have "of_nat i \<le> (of_int (frameCount d - 2) :: rat)"
        using assms(2) True by (metis of_int_of_nat_eq of_int_le_iff zle_diff1_eq diff_diff_eq one_add_one of_nat_less_iff)
      then have "of_nat i * spacing d \<le> of_int (frameCount d - 2) * spacing d"
        using d4 pos by (intro mult_right_mono) (simp_all add: spacing_def)
      also have "\<dots> = d - 1" using pos by (simp add: spacing_def)
      finally show ?thesis
        using False i_mid True j0 by (simp add: frameTime_def)
    qed
  next
    case False
    then have fc3: "3 \<le> frameCount d" using assms(2,3) by linarith
    then have pos: "0 < (of_int (frameCount d - 2) :: rat)" by simp
    have d4: "4 \<le> d" using fc3 by (rule frameCount_ge_3)
    have sp: "0 < spacing d" using pos d4 by (simp add: spacing_def)
    have "(of_nat i :: rat) * spacing d < of_nat j * spacing d"
      using assms(2) sp by simp
    then show ?thesis
      using False j0 i_mid sp by (simp add: frameTime_def)
  qed
qed

lemma sorted_names_ascending_timestamps:
  assumes "0 < d" and "2 \<le> frameCount d" and "extractFrames e v d s = (Some (Inr files), s')"
  shows "frame_timestamps s' files = map (\<lambda>k. Some (frameTime d k)) [0 ..< nat (frameCount d)]
       \<and> sorted_wrt (<) (map (frameTime d) [0 ..< nat (frameCount d)])"
proof
  have files: "files = map (framePath e) [0 ..< nat (frameCount d)]"
    using assms by (rule sorted_frame_files)
  have "\<And>k. k \<in> set [0 ..< nat (frameCount d)] \<Longrightarrow>
          (case frames s' of None \<Rightarrow> None
           | Some dir \<Rightarrow> map_option timestamp (fmlookup dir (basename (framePath e k))))
          = Some (frameTime d k)"
  proof -
    fix k assume "k \<in> set [0 ..< nat (frameCount d)]"
    then have "int k < frameCount d" by simp
    from frame_lookup [OF assms this] show
      "(case frames s' of None \<Rightarrow> None
        | Some dir \<Rightarrow> map_option timestamp (fmlookup dir (basename (framePath e k))))
       = Some (frameTime d k)"
      by (auto simp: basename_framePath)
  qed
  then show "frame_timestamps s' files
               = map (\<lambda>k. Some (frameTime d k)) [0 ..< nat (frameCount d)]"
    unfolding frame_timestamps_def files by (simp only: map_map o_def cong: map_cong)
  show "sorted_wrt (<) (map (frameTime d) [0 ..< nat (frameCount d)])"
    unfolding sorted_wrt_iff_nth_less
  proof (intro allI impI)
    fix i j
    assume ij: "i < j" and "j < length (map (frameTime d) [0 ..< nat (frameCount d)])"
    then have j: "int j < frameCount d" by simp
    then show "map (frameTime d) [0 ..< nat (frameCount d)] ! i
             < map (frameTime d) [0 ..< nat (frameCount d)] ! j"
      using ij frameTime_mono [OF assms(2) ij j] by simp
  qed
qed

text \<open>
  The folder and the list of a run that returns do not depend on the completion order,
  nor on what the folder held before; and the log of decoder invocations holds, in
  completion order, exactly one invocation per frame, at the timestamp of that frame.
\<close>

lemma fold_fmupd_perm:
  assumes "mset xs = mset ys" and "inj_on key (set xs)" and "distinct xs"
  shows "fold (\<lambda>i. fmupd (key i) (val i)) xs m = fold (\<lambda>i. fmupd (key i) (val i)) ys m"
proof (rule fmap_ext)
  fix k
  have set: "set ys = set xs" using assms(1) by (metis set_mset_mset)
  have dist: "distinct ys" using assms(1,3) by (metis mset_eq_imp_distinct_iff)
  show "fmlookup (fold (\<lambda>i. fmupd (key i) (val i)) xs m) k
      = fmlookup (fold (\<lambda>i. fmupd (key i) (val i)) ys m) k"
  proof (cases "k \<in> key ` set xs")
    case True
    then obtain x where x: "x \<in> set xs" and k: "k = key x" by blast
    have "fmlookup (fold (\<lambda>i. fmupd (key i) (val i)) xs m) (key x) = Some (val x)"
      using assms(2,3) x by (rule fmlookup_fold_written)
    moreover have "fmlookup (fold (\<lambda>i. fmupd (key i) (val i)) ys m) (key x) = Some (val x)"
      using assms(2) dist x unfolding set [symmetric] by (rule fmlookup_fold_written)
    ultimately show ?thesis by (simp add: k)
  next
    case False
    then show ?thesis by (simp add: fmlookup_fold_other set)
  qed
qed

lemma sort_mset_cong: "mset xs = mset ys \<Longrightarrow> sort xs = sort (ys :: 'a :: linorder list)"
  by (rule properties_for_sort) simp_all

lemma extractFrames_result:
  assumes "0 < d" and "extractFrames e v d s = (Some (Inr files), s')"
  shows "files = filesReturned (framesFolder (cwd e)) d \<and> frames s' = Some (framesWritten v d)"
proof -
  have m: "mset (middleOrder e d) = mset [0 ..< nat (frameCount d - 2)]"
    unfolding middleOrder_def by (rule mset_completion_order)
  have inj: "inj_on (\<lambda>i. frameName (Suc i)) (set (middleOrder e d))"
    by (auto simp: inj_on_def dest: frameName_inj)
  have fold: "fold (\<lambda>i. fmupd (frameName (Suc i)) \<lparr>video = v, timestamp = (of_nat i + 1) * spacing d\<rparr>)
                (middleOrder e d) (fmupd (frameName 0) \<lparr>video = v, timestamp = 0\<rparr> fmempty)
            = fold (\<lambda>i. fmupd (frameName (Suc i)) \<lparr>video = v, timestamp = (of_nat i + 1) * spacing d\<rparr>)
                [0 ..< nat (frameCount d - 2)] (fmupd (frameName 0) \<lparr>video = v, timestamp = 0\<rparr> fmempty)"
    using m inj distinct_middleOrder by (rule fold_fmupd_perm)
  have "mset (map (\<lambda>i. framePath e (Suc i)) (middleOrder e d))
      = mset (map (\<lambda>i. framePath e (Suc i)) [0 ..< nat (frameCount d - 2)])"
    using m by (metis mset_map)
  then have "mset (framePath e 0 # map (\<lambda>i. framePath e (Suc i)) (middleOrder e d)
                     @ [framePath e (nat (frameCount d - 1))])
           = mset (framePath e 0 # map (\<lambda>i. framePath e (Suc i)) [0 ..< nat (frameCount d - 2)]
                     @ [framePath e (nat (frameCount d - 1))])"
    by simp
  then have sort: "sort (framePath e 0 # map (\<lambda>i. framePath e (Suc i)) (middleOrder e d)
                     @ [framePath e (nat (frameCount d - 1))])
           = filesReturned (framesFolder (cwd e)) d"
    unfolding filesReturned_def framePath_def [symmetric] by (rule sort_mset_cong)
  from extractFrames_Inr [OF assms] show ?thesis
    unfolding fold sort framesWritten_def by simp
qed

lemma extracted_log:
  assumes "0 < d" and "extractFrames e v d s = (Some (Inr files), s')"
  shows "\<exists>new. extracted s' = extracted s @ new
           \<and> mset new = mset (map (\<lambda>k. (frameTime d k, framePath e k))
                                [0 ..< nat (frameCount d)])"
proof -
  have fc2: "2 \<le> frameCount d" using assms by (rule extractFrames_Inr_frameCount)
  define n where "n = nat (frameCount d - 2)"
  have fc: "nat (frameCount d) = Suc (Suc n)" and last: "nat (frameCount d - 1) = Suc n"
    and fci: "frameCount d = int n + 2"
    using fc2 by (simp_all add: n_def)
  define g where "g = (\<lambda>k. (frameTime d k, framePath e k))"
  define h where "h = (\<lambda>i. ((of_nat i + 1) * spacing d, framePath e (Suc i)))"
  define new where
    "new = (0, framePath e 0) # map h (middleOrder e d) @ [(d - 1 / 10, framePath e (Suc n))]"
  have x: "extracted s' = extracted s @ new"
    using extractFrames_Inr [OF assms] by (simp add: last new_def h_def)
  have "mset (middleOrder e d) = mset [0 ..< n]"
    unfolding middleOrder_def n_def by (rule mset_completion_order)
  then have "mset (map h (middleOrder e d)) = mset (map h [0 ..< n])" by (metis mset_map)
  also have "map h [0 ..< n] = map g [Suc 0 ..< Suc n]"
  proof -
    have "map h [0 ..< n] = map (\<lambda>i. g (Suc i)) [0 ..< n]"
      by (rule map_cong) (simp_all add: h_def g_def frameTime_def fci)
    also have "\<dots> = map g (map Suc [0 ..< n])" by (simp add: o_def)
    also have "map Suc [0 ..< n] = [Suc 0 ..< Suc n]" by (rule map_Suc_upt)
    finally show ?thesis .
  qed
  finally have m: "mset (map h (middleOrder e d)) = mset (map g [Suc 0 ..< Suc n])" .
  have g0: "g 0 = (0, framePath e 0)" by (simp add: g_def frameTime_def)
  have gl: "g (Suc n) = (d - 1 / 10, framePath e (Suc n))"
    by (simp add: g_def frameTime_def fci)
  have "[0 ..< Suc n] = 0 # [Suc 0 ..< Suc n]" by (rule upt_conv_Cons) simp
  moreover have "[0 ..< Suc (Suc n)] = [0 ..< Suc n] @ [Suc n]" by (simp only: upt_Suc) simp
  ultimately have upt: "map g [0 ..< Suc (Suc n)] = g 0 # map g [Suc 0 ..< Suc n] @ [g (Suc n)]"
    by (simp only: list.map map_append append_Cons)
  have "mset new = mset (map g [0 ..< Suc (Suc n)])"
    unfolding upt new_def g0 gl using m by simp
  then show ?thesis using x unfolding fc g_def by blast
qed

lemma extracted_within_duration:
  assumes "0 < d" and "extractFrames e v d s = (Some (Inr files), s')"
  shows "\<exists>new. extracted s' = extracted s @ new \<and> (\<forall>(t, p) \<in> set new. 0 \<le> t \<and> t < d)"
proof -
  have fc2: "2 \<le> frameCount d" using assms by (rule extractFrames_Inr_frameCount)
  have d2: "2 \<le> d" using fc2 by (rule frameCount_ge_2)
  define n where "n = nat (frameCount d)"
  have n: "int (n - 1) = frameCount d - 1" and n2: "2 \<le> n" using fc2 by (simp_all add: n_def)
  have last: "frameTime d (n - 1) = d - 1 / 10"
    using n n2 by (simp add: frameTime_def)
  have bound: "0 \<le> frameTime d k \<and> frameTime d k < d" if "k < n" for k
  proof -
    have k: "int k < frameCount d" using that by (simp add: n_def)
    have lo: "0 \<le> frameTime d k"
    proof (cases "k = 0")
      case True
      then show ?thesis by (simp add: frameTime_def)
    next
      case False
      then have "frameTime d 0 < frameTime d k" using fc2 k by (intro frameTime_mono) simp_all
      then show ?thesis by (simp add: frameTime_def)
    qed
    have hi: "frameTime d k \<le> d - 1 / 10"
    proof (cases "k = n - 1")
      case True
      then show ?thesis using last by simp
    next
      case False
      then have "k < n - 1" using that by simp
      moreover have "int (n - 1) < frameCount d" using n by simp
      ultimately have "frameTime d k < frameTime d (n - 1)" using fc2 by (intro frameTime_mono)
      then show ?thesis using last by simp
    qed
    from lo hi show ?thesis by simp
  qed
  from extracted_log [OF assms] obtain new where
    x: "extracted s' = extracted s @ new" and
    m: "mset new = mset (map (\<lambda>k. (frameTime d k, framePath e k)) [0 ..< n])"
    unfolding n_def by blast
  from m have "set new = (\<lambda>k. (frameTime d k, framePath e k)) ` {0 ..< n}"
    by (metis set_mset_mset set_map set_upt)
  then have "\<forall>(t, p) \<in> set new. 0 \<le> t \<and> t < d" using bound by auto
  with x show ?thesis by blast
qed

text \<open>
  C3. The list a run returns is sorted, and in that order the extraction timestamps are
  strictly increasing: the decoder invocations of the run are, up to their order of
  completion, exactly the sorted paths paired with strictly increasing timestamps, and
  the still under each path carries its timestamp. The list, the folder and the set of
  invocations are the same for every order in which the concurrent extractions
  complete.
\<close>

theorem sorted_names_ascending:
  assumes "0 < d" and "extractFrames e v d s = (Some (Inr files), s')"
  shows "sort files = files
       \<and> (\<exists>ts new. sorted_wrt (<) ts \<and> length ts = length files
             \<and> extracted s' = extracted s @ new \<and> mset new = mset (zip ts files)
             \<and> frame_timestamps s' files = map Some ts)
       \<and> (\<forall>pick files' s''.
             extractFrames (e\<lparr>completes_next := pick\<rparr>) v d s = (Some (Inr files'), s'')
             \<longrightarrow> files' = files \<and> frames s'' = frames s'
               \<and> mset (extracted s'') = mset (extracted s'))"
proof (intro conjI allI impI)
  define n where "n = nat (frameCount d)"
  have fc2: "2 \<le> frameCount d" using assms by (rule extractFrames_Inr_frameCount)
  have files: "files = map (framePath e) [0 ..< n]"
    unfolding n_def using assms(1) fc2 assms(2) by (rule sorted_frame_files)
  have "n \<le> 1000" using frameCount_le_40 [of d] by (simp add: n_def)
  then have "sorted files" unfolding files by (rule sorted_framePaths)
  then show "sort files = files" by (rule sort_key_id_if_sorted [where f = "\<lambda>x. x", simplified])
  define ts where "ts = map (frameTime d) [0 ..< n]"
  from sorted_names_ascending_timestamps [OF assms(1) fc2 assms(2)] have
    st: "frame_timestamps s' files = map Some ts" and inc: "sorted_wrt (<) ts"
    by (simp_all add: ts_def n_def o_def)
  from extracted_log [OF assms] obtain new where
    x: "extracted s' = extracted s @ new" and
    m: "mset new = mset (map (\<lambda>k. (frameTime d k, framePath e k)) [0 ..< n])"
    unfolding n_def by blast
  have z: "zip ts files = map (\<lambda>k. (frameTime d k, framePath e k)) [0 ..< n]"
    unfolding ts_def files by (simp add: zip_map_map zip_same_conv_map o_def)
  have "length ts = length files" by (simp add: ts_def files)
  with inc x m st show "\<exists>ts new. sorted_wrt (<) ts \<and> length ts = length files
             \<and> extracted s' = extracted s @ new \<and> mset new = mset (zip ts files)
             \<and> frame_timestamps s' files = map Some ts"
    unfolding z [symmetric] by blast
  fix pick files' s''
  assume other: "extractFrames (e\<lparr>completes_next := pick\<rparr>) v d s = (Some (Inr files'), s'')"
  from extractFrames_result [OF assms] extractFrames_result [OF assms(1) other]
  show "files' = files" and "frames s'' = frames s'" by simp_all
  from extracted_log [OF assms(1) other] obtain new' where
    "extracted s'' = extracted s @ new'" and
    "mset new' = mset (map (\<lambda>k. (frameTime d k, framePath e k)) [0 ..< n])"
    unfolding n_def by (auto simp: framePath_def)
  then show "mset (extracted s'') = mset (extracted s')" using x m by simp
qed

theorem sorted_names_ascending_witness:
  "(0 :: rat) < 9
   \<and> fst (extractFrames sample_env ''/work/content/automate/Demo.MP4'' 9 stale_world)
       = Some (Inr [''/work/content/frames/frame_000.jpg'', ''/work/content/frames/frame_001.jpg'',
                    ''/work/content/frames/frame_002.jpg'', ''/work/content/frames/frame_003.jpg'',
                    ''/work/content/frames/frame_004.jpg''])
   \<and> fst (extractFrames (sample_env\<lparr>completes_next := (\<lambda>pending. 0)\<rparr>)
              ''/work/content/automate/Demo.MP4'' 9 stale_world)
       = Some (Inr [''/work/content/frames/frame_000.jpg'', ''/work/content/frames/frame_001.jpg'',
                    ''/work/content/frames/frame_002.jpg'', ''/work/content/frames/frame_003.jpg'',
                    ''/work/content/frames/frame_004.jpg''])
   \<and> sort [''/work/content/frames/frame_000.jpg'', ''/work/content/frames/frame_001.jpg'',
            ''/work/content/frames/frame_002.jpg'', ''/work/content/frames/frame_003.jpg'',
            ''/work/content/frames/frame_004.jpg'']
       = [''/work/content/frames/frame_000.jpg'', ''/work/content/frames/frame_001.jpg'',
          ''/work/content/frames/frame_002.jpg'', ''/work/content/frames/frame_003.jpg'',
          ''/work/content/frames/frame_004.jpg'']
   \<and> frame_timestamps
         (snd (extractFrames sample_env ''/work/content/automate/Demo.MP4'' 9 stale_world))
         [''/work/content/frames/frame_000.jpg'', ''/work/content/frames/frame_001.jpg'',
          ''/work/content/frames/frame_002.jpg'', ''/work/content/frames/frame_003.jpg'',
          ''/work/content/frames/frame_004.jpg'']
       = [Some 0, Some (8 / 3), Some (16 / 3), Some 8, Some (89 / 10)]
   \<and> sorted_wrt (<) [0, 8 / 3, 16 / 3, 8, 89 / 10 :: rat]
   \<and> map fst (extracted
         (snd (extractFrames sample_env ''/work/content/automate/Demo.MP4'' 9 stale_world)))
       = [0, 8, 16 / 3, 8 / 3, 89 / 10]
   \<and> map fst (extracted
         (snd (extractFrames (sample_env\<lparr>completes_next := (\<lambda>pending. 0)\<rparr>)
                 ''/work/content/automate/Demo.MP4'' 9 stale_world)))
       = [0, 8 / 3, 16 / 3, 8, 89 / 10]
   \<and> frames (snd (extractFrames (sample_env\<lparr>completes_next := (\<lambda>pending. 0)\<rparr>)
                     ''/work/content/automate/Demo.MP4'' 9 stale_world))
       = frames (snd (extractFrames sample_env ''/work/content/automate/Demo.MP4'' 9 stale_world))"
proof -
  let ?run1 = "extractFrames sample_env ''/work/content/automate/Demo.MP4'' 9 stale_world"
  let ?run2 = "extractFrames (sample_env\<lparr>completes_next := (\<lambda>pending. 0)\<rparr>)
                 ''/work/content/automate/Demo.MP4'' 9 stale_world"
  let ?files = "[''/work/content/frames/frame_000.jpg'', ''/work/content/frames/frame_001.jpg'',
                 ''/work/content/frames/frame_002.jpg'', ''/work/content/frames/frame_003.jpg'',
                 ''/work/content/frames/frame_004.jpg'']"
  have pos: "(0 :: rat) < 9" by simp
  have r1: "fst ?run1 = Some (Inr ?files)" by code_simp
  have r2: "fst ?run2 = Some (Inr ?files)" by code_simp
  have run1: "?run1 = (Some (Inr ?files), snd ?run1)" using r1 by (metis prod.collapse)
  have run2: "?run2 = (Some (Inr ?files), snd ?run2)" using r2 by (metis prod.collapse)
  have st: "frame_timestamps (snd ?run1) ?files
              = [Some 0, Some (8 / 3), Some (16 / 3), Some 8, Some (89 / 10)]"
    by code_simp
  have inc: "sorted_wrt (<) [0, 8 / 3, 16 / 3, 8, 89 / 10 :: rat]" by code_simp
  have l1: "map fst (extracted (snd ?run1)) = [0, 8, 16 / 3, 8 / 3, 89 / 10]" by code_simp
  have l2: "map fst (extracted (snd ?run2)) = [0, 8 / 3, 16 / 3, 8, 89 / 10]" by code_simp
  note t = sorted_names_ascending [OF pos run1]
  have sorted: "sort ?files = ?files" using t [THEN conjunct1] .
  have same: "frames (snd ?run2) = frames (snd ?run1)"
    using t [THEN conjunct2, THEN conjunct2, rule_format, OF run2] by simp
  from pos r1 r2 sorted st inc l1 l2 same show ?thesis by (intro conjI)
qed

section \<open>The number of frames returned\<close>




section \<open>Grids\<close>

text \<open>
  \<open>createGrid\<close> with its constants evaluated (quadrants of 960 by 540, a gap of 2), and a
  run of \<open>createGrids\<close> that returns: the grid folder is emptied and then holds one
  composite per batch.
\<close>

lemma frame_size: "\<lfloor>(of_int (width gridSize) :: rat) / 2\<rfloor> = 960"
  "\<lfloor>(of_int (height gridSize) :: rat) / 2\<rfloor> = 540"
  "\<lfloor>(of_int 2 :: rat) / 2\<rfloor> = 1"
  by code_simp+

lemma floor_half: "\<lfloor>(of_nat k :: rat) / 2\<rfloor> = int (k div 2)"
  using floor_divide_of_nat_eq [of k 2, where ?'a = rat] by simp

lemma basename_gridPath: "basename (gridPath e i) = gridName i"
  by (simp add: gridPath_def basename_path_join gridName_no_slash)

lemma enumerate_map_nth: "enumerate 0 xs = map (\<lambda>k. (k, xs ! k)) [0 ..< length xs]"
  by (rule nth_equalityI) (simp_all add: nth_enumerate_eq)

lemma createGrid_unfold:
  assumes "frameFiles \<noteq> []"
  shows "createGrid e frameFiles gridIndex s =
     (case grid s of
        None \<Rightarrow> (Inl Error, s)
      | Some dir \<Rightarrow>
          if sharp_ok e frameFiles (gridPath e gridIndex)
          then (Inr (), s\<lparr>grid := Some (fmupd (gridName gridIndex) (gridComposite frameFiles) dir),
                          composed := composed s @ [gridPath e gridIndex]\<rparr>)
          else (Inl Error, s))"
proof -
  have ov: "map (\<lambda>(index, framePath).
                   \<lparr>input = \<lparr>frame_file = framePath, resize_width = 960 - 2,
                             resize_height = 540 - 2, withoutEnlargement = True\<rparr>,
                    top_px = \<lfloor>(of_nat index :: rat) / 2\<rfloor> * 540 + 1,
                    left_px = (int index mod 2) * 960 + 1\<rparr>)
              (enumerate 0 (slice 0 4 frameFiles))
            = overlays (gridComposite frameFiles)"
    by (simp add: enumerate_map_nth slice_def gridComposite_def floor_half zmod_int o_def min.commute)
  have path: "path_join (gridFolder (cwd e))
                (''grid_'' @ padStart 3 CHR ''0'' (String (int gridIndex)) @ ''.jpg'')
              = gridPath e gridIndex"
    by (simp add: gridPath_def gridName_def)
  have comp: "\<lparr>canvas_width = width gridSize, canvas_height = height gridSize,
               background = (0, 0, 0), overlays = overlays (gridComposite frameFiles)\<rparr>
              = gridComposite frameFiles"
    by (simp add: gridComposite_def gridSize_def)
  show ?thesis
    unfolding createGrid_def Let_def frame_size
    using assms
    by (simp only: path ov comp basename_gridPath length_0_conv if_False)
qed

lemma numGrids_div: "numGrids n = (n + 3) div 4"
proof -
  have "\<lceil>(of_nat n :: rat) / 4\<rceil> = - (- int n div 4)"
    using ceiling_divide_eq_div [of "int n" 4, where ?'a = rat] by simp
  then show ?thesis unfolding numGrids_def by simp
qed

lemma createBatches_Inr:
  assumes "createBatches e frameFiles order s = (Inr u, s')" and "grid s = Some dir"
    and "\<forall>i \<in> set order. i * 4 < length frameFiles"
  shows "s' = s\<lparr>grid := Some (fold (\<lambda>i. fmupd (gridName i)
                                      (gridComposite (slice (i * 4) ((i + 1) * 4) frameFiles)))
                               order dir),
                composed := composed s @ map (gridPath e) order\<rparr>"
  using assms
proof (induction order arbitrary: s dir)
  case Nil
  then show ?case by simp
next
  case (Cons i rest)
  let ?batch = "slice (i * 4) ((i + 1) * 4) frameFiles"
  have ne: "?batch \<noteq> []" using Cons.prems(3) by (simp add: slice_def)
  from Cons.prems(1) obtain u1 s1 where
    1: "createGrid e ?batch i s = (Inr u1, s1)" and
    2: "createBatches e frameFiles rest s1 = (Inr u, s')"
    by (auto simp: Let_def split: prod.splits sum.splits)
  from 1 Cons.prems(2) have
    s1: "s1 = s\<lparr>grid := Some (fmupd (gridName i) (gridComposite ?batch) dir),
                 composed := composed s @ [gridPath e i]\<rparr>"
    unfolding createGrid_unfold [OF ne] by (auto split: if_splits)
  then have "grid s1 = Some (fmupd (gridName i) (gridComposite ?batch) dir)" by simp
  from Cons.IH [OF 2 this] Cons.prems(3) show ?case by (simp add: s1)
qed

lemma createGrids_Inr:
  assumes "createGrids e frameFiles s = (Inr u, s')"
  shows "s' = s\<lparr>grid := Some (fold (\<lambda>i. fmupd (gridName i)
                                      (gridComposite (slice (i * 4) ((i + 1) * 4) frameFiles)))
                               (gridOrder e (length frameFiles)) fmempty),
                composed := composed s @ map (gridPath e) (gridOrder e (length frameFiles))\<rparr>"
proof -
  from assms obtain dir u1 dir' where
    1: "unlinkAll e (gridFolder (cwd e)) dir = (Inr u1, dir')" and
    2: "createBatches e frameFiles (gridOrder e (length frameFiles)) (s\<lparr>grid := Some dir'\<rparr>)
          = (Inr u, s')"
    unfolding createGrids_def Let_def gridOrder_def numGrids_def
    by (auto split: option.splits if_splits sum.splits prod.splits)
  have dir': "dir' = fmempty" using unlinkAll_Inr [OF 1] .
  have "\<forall>i \<in> set (gridOrder e (length frameFiles)). i * 4 < length frameFiles"
    by (auto simp: gridOrder_def set_completion_order numGrids_div)
  from createBatches_Inr [OF 2 _ this, of dir'] show ?thesis by (simp add: dir')
qed

lemma concat_chunks: "concat (map (\<lambda>i. take 4 (drop (4 * i) xs)) [0 ..< m]) = take (4 * m) xs"
proof (induction m)
  case 0
  then show ?case by simp
next
  case (Suc m)
  have "take (4 * Suc m) xs = take (4 * m) xs @ take 4 (drop (4 * m) xs)"
    by (simp add: take_add [symmetric] add.commute)
  with Suc show ?case by simp
qed

lemma batch_frames:
  "map (\<lambda>ov. frame_file (input ov)) (overlays (gridComposite batch)) = take 4 batch"
  by (rule nth_equalityI) (simp_all add: gridComposite_def min.commute)

lemma quarter_up: "(n + 3) div 4 = (if n mod 4 = 0 then n div 4 else n div 4 + 1)" for n :: nat
  by arith

lemma min_batch:
  fixes i n :: nat
  assumes "i < (n + 3) div 4"
  shows "min 4 (n - 4 * i) = (if i + 1 < (n + 3) div 4 then 4 else if n mod 4 = 0 then 4 else n mod 4)"
proof -
  define q r where "q = n div 4" and "r = n mod 4"
  have n: "n = 4 * q + r" and r: "r < 4" by (simp_all add: q_def r_def)
  have m: "(n + 3) div 4 = (if r = 0 then q else q + 1)"
    unfolding r_def q_def by (rule quarter_up)
  have iq: "i \<le> q" "r = 0 \<Longrightarrow> i < q"
    using assms unfolding m by (simp_all split: if_splits)
  show ?thesis
  proof (cases "i < q")
    case True
    then have "4 * i + 4 \<le> 4 * q" by simp
    then have a: "min 4 (n - 4 * i) = 4" unfolding n by simp
    show ?thesis
    proof (cases "r = 0")
      case True
      then show ?thesis using a by (simp add: r_def)
    next
      case False
      then have "i + 1 < (n + 3) div 4" using \<open>i < q\<close> unfolding m by simp
      then show ?thesis using a by simp
    qed
  next
    case False
    then have i: "i = q" and r0: "r \<noteq> 0" using iq by auto
    have "\<not> i + 1 < (n + 3) div 4" unfolding m i using r0 by simp
    moreover have "min 4 (n - 4 * i) = r" unfolding n i using r by simp
    ultimately show ?thesis using r0 by (simp add: r_def)
  qed
qed

lemma length_batch:
  assumes "i < numGrids n" and "length xs = n"
  shows "length (take 4 (drop (4 * i) xs))
           = (if i + 1 < numGrids n then 4 else if n mod 4 = 0 then 4 else n mod 4)"
proof -
  have "length (take 4 (drop (4 * i) xs)) = min 4 (n - 4 * i)"
    using assms(2) by (simp add: min.commute)
  also have "\<dots> = (if i + 1 < (n + 3) div 4 then 4 else if n mod 4 = 0 then 4 else n mod 4)"
    using assms(1) unfolding numGrids_div by (rule min_batch)
  finally show ?thesis unfolding numGrids_div .
qed

lemma set_gridOrder: "set (gridOrder e n) = {0 ..< numGrids n}"
  by (simp add: gridOrder_def set_completion_order)

lemma distinct_gridOrder: "distinct (gridOrder e n)"
  by (simp add: gridOrder_def distinct_completion_order)

lemma inj_gridName: "inj_on gridName A"
  by (auto simp: inj_on_def dest: gridName_inj)

lemma slice_batch: "slice (i * 4) ((i + 1) * 4) xs = take 4 (drop (4 * i) xs)"
  by (simp add: slice_def mult.commute)

text \<open>
  C6, as amended. Called with one to four frames and a batch index, in a state where the
  grid folder exists and \<open>sharp\<close> does not fail, \<open>createGrid\<close> returns normally and writes
  exactly one entry, \<open>grid_<index padded to 3 digits>.jpg\<close>: a 1920 by 1080 canvas with a
  black background and one overlay per frame, frame \<open>k\<close> at
  \<open>top = floor(k / 2) * 540 + 1\<close>, \<open>left = (k mod 2) * 960 + 1\<close> (row-major quadrants). Each
  frame is scaled to the cell of 958 by 538 pixels without being enlarged: the overlay
  of a frame of \<open>w\<close> by \<open>h\<close> pixels is \<open>min(w, 958)\<close> wide and \<open>min(h, 538)\<close> high, so a frame
  at least as large as the cell is resized to 958 by 538 and a frame no larger than the
  cell keeps its size. With fewer than four frames there are fewer overlays and nothing
  else changes.
\<close>

theorem createGrid_cells:
  assumes "1 \<le> length frameFiles" and "length frameFiles \<le> 4" and "grid s = Some dir"
    and "sharp_ok e frameFiles
           (path_join (gridFolder (cwd e))
              (''grid_'' @ padStart 3 CHR ''0'' (String (int gridIndex)) @ ''.jpg''))"
  shows "\<exists>c. createGrid e frameFiles gridIndex s =
           (Inr (),
            s\<lparr>grid := Some (fmupd (''grid_'' @ padStart 3 CHR ''0'' (String (int gridIndex)) @ ''.jpg'')
                               c dir),
              composed := composed s
                @ [path_join (gridFolder (cwd e))
                     (''grid_'' @ padStart 3 CHR ''0'' (String (int gridIndex)) @ ''.jpg'')]\<rparr>)
       \<and> c = \<lparr>canvas_width = 1920, canvas_height = 1080, background = (0, 0, 0),
               overlays = map (\<lambda>k. \<lparr>input = \<lparr>frame_file = frameFiles ! k, resize_width = 958,
                                               resize_height = 538, withoutEnlargement = True\<rparr>,
                                      top_px = \<lfloor>(of_nat k :: rat) / 2\<rfloor> * 540 + 1,
                                      left_px = int (k mod 2) * 960 + 1\<rparr>)
                            [0 ..< length frameFiles]\<rparr>
       \<and> map (overlay_size e) (overlays c)
           = map (\<lambda>k. (min (int (fst (image_size e (frameFiles ! k)))) 958,
                        min (int (snd (image_size e (frameFiles ! k)))) 538))
               [0 ..< length frameFiles]"
proof -
  have ne: "frameFiles \<noteq> []" using assms(1) by auto
  have names: "''grid_'' @ padStart 3 CHR ''0'' (String (int gridIndex)) @ ''.jpg''
                 = gridName gridIndex"
    by (simp add: gridName_def)
  have comp: "\<lparr>canvas_width = 1920, canvas_height = 1080, background = (0, 0, 0),
           overlays = map (\<lambda>k. \<lparr>input = \<lparr>frame_file = frameFiles ! k, resize_width = 958,
                                           resize_height = 538, withoutEnlargement = True\<rparr>,
                                  top_px = \<lfloor>(of_nat k :: rat) / 2\<rfloor> * 540 + 1,
                                  left_px = int (k mod 2) * 960 + 1\<rparr>)
                        [0 ..< length frameFiles]\<rparr> = gridComposite frameFiles"
    using assms(2) by (simp add: gridComposite_def floor_half min_def)
  have run: "createGrid e frameFiles gridIndex s =
           (Inr (), s\<lparr>grid := Some (fmupd (gridName gridIndex) (gridComposite frameFiles) dir),
                       composed := composed s @ [gridPath e gridIndex]\<rparr>)"
    using assms(3,4)
    unfolding names gridPath_def [symmetric] createGrid_unfold [OF ne]
    by simp
  have sizes: "map (overlay_size e) (overlays (gridComposite frameFiles))
           = map (\<lambda>k. (min (int (fst (image_size e (frameFiles ! k)))) 958,
                        min (int (snd (image_size e (frameFiles ! k)))) 538))
               [0 ..< length frameFiles]"
    using assms(2) by (simp add: gridComposite_def overlay_size_def resize_fill_def min_def o_def)
  show ?thesis
    unfolding names comp gridPath_def [symmetric]
    using run sizes by blast
qed

theorem createGrid_cells_witness:
  "createGrid small_frame_env [''/f/a.jpg'', ''/f/b.jpg'', ''/f/c.jpg''] 7 empty_world =
     (Inr (),
      empty_world\<lparr>grid := Some (fmupd ''grid_007.jpg''
          \<lparr>canvas_width = 1920, canvas_height = 1080, background = (0, 0, 0),
           overlays =
             [\<lparr>input = \<lparr>frame_file = ''/f/a.jpg'', resize_width = 958, resize_height = 538,
                        withoutEnlargement = True\<rparr>, top_px = 1, left_px = 1\<rparr>,
              \<lparr>input = \<lparr>frame_file = ''/f/b.jpg'', resize_width = 958, resize_height = 538,
                        withoutEnlargement = True\<rparr>, top_px = 1, left_px = 961\<rparr>,
              \<lparr>input = \<lparr>frame_file = ''/f/c.jpg'', resize_width = 958, resize_height = 538,
                        withoutEnlargement = True\<rparr>, top_px = 541, left_px = 1\<rparr>]\<rparr>
          fmempty),
        composed := composed empty_world @ [''/work/content/grid/grid_007.jpg'']\<rparr>)
   \<and> map (overlay_size small_frame_env)
         [\<lparr>input = \<lparr>frame_file = ''/f/a.jpg'', resize_width = 958, resize_height = 538,
                    withoutEnlargement = True\<rparr>, top_px = 1, left_px = 1\<rparr>,
          \<lparr>input = \<lparr>frame_file = ''/f/b.jpg'', resize_width = 958, resize_height = 538,
                    withoutEnlargement = True\<rparr>, top_px = 1, left_px = 961\<rparr>,
          \<lparr>input = \<lparr>frame_file = ''/f/c.jpg'', resize_width = 958, resize_height = 538,
                    withoutEnlargement = True\<rparr>, top_px = 541, left_px = 1\<rparr>]
       = [(958, 538), (320, 240), (958, 538)]"
proof -
  let ?frames = "[''/f/a.jpg'', ''/f/b.jpg'', ''/f/c.jpg'']"
  have 1: "1 \<le> length ?frames" and 2: "length ?frames \<le> 4" by simp_all
  have 3: "grid empty_world = Some fmempty" by (simp add: empty_world_def)
  have 4: "sharp_ok small_frame_env ?frames
             (path_join (gridFolder (cwd small_frame_env))
                (''grid_'' @ padStart 3 CHR ''0'' (String (int 7)) @ ''.jpg''))"
    by (simp add: small_frame_env_def sample_env_def)
  have n: "''grid_'' @ padStart 3 CHR ''0'' (String (int 7)) @ ''.jpg'' = ''grid_007.jpg''"
    by code_simp
  have ov: "map (\<lambda>k. \<lparr>input = \<lparr>frame_file = ?frames ! k, resize_width = 958,
                                 resize_height = 538, withoutEnlargement = True\<rparr>,
                        top_px = \<lfloor>(of_nat k :: rat) / 2\<rfloor> * 540 + 1,
                        left_px = int (k mod 2) * 960 + 1\<rparr>) [0 ..< length ?frames]
            = [\<lparr>input = \<lparr>frame_file = ''/f/a.jpg'', resize_width = 958, resize_height = 538,
                        withoutEnlargement = True\<rparr>, top_px = 1, left_px = 1\<rparr>,
               \<lparr>input = \<lparr>frame_file = ''/f/b.jpg'', resize_width = 958, resize_height = 538,
                        withoutEnlargement = True\<rparr>, top_px = 1, left_px = 961\<rparr>,
               \<lparr>input = \<lparr>frame_file = ''/f/c.jpg'', resize_width = 958, resize_height = 538,
                        withoutEnlargement = True\<rparr>, top_px = 541, left_px = 1\<rparr>]"
    by code_simp
  have p: "path_join (gridFolder (cwd small_frame_env)) ''grid_007.jpg''
             = ''/work/content/grid/grid_007.jpg''"
    by code_simp
  have sz: "map (\<lambda>k. (min (int (fst (image_size small_frame_env (?frames ! k)))) 958,
                      min (int (snd (image_size small_frame_env (?frames ! k)))) 538))
              [0 ..< length ?frames]
            = [(958, 538), (320, 240), (958, 538)]"
    by code_simp
  from createGrid_cells [OF 1 2 3 4] obtain c where
    all: "createGrid small_frame_env ?frames 7 empty_world =
           (Inr (),
            empty_world\<lparr>grid := Some (fmupd (''grid_'' @ padStart 3 CHR ''0'' (String (int 7)) @ ''.jpg'')
                               c fmempty),
              composed := composed empty_world
                @ [path_join (gridFolder (cwd small_frame_env))
                     (''grid_'' @ padStart 3 CHR ''0'' (String (int 7)) @ ''.jpg'')]\<rparr>)
       \<and> c = \<lparr>canvas_width = 1920, canvas_height = 1080, background = (0, 0, 0),
               overlays = map (\<lambda>k. \<lparr>input = \<lparr>frame_file = ?frames ! k, resize_width = 958,
                                               resize_height = 538, withoutEnlargement = True\<rparr>,
                                      top_px = \<lfloor>(of_nat k :: rat) / 2\<rfloor> * 540 + 1,
                                      left_px = int (k mod 2) * 960 + 1\<rparr>)
                            [0 ..< length ?frames]\<rparr>
       \<and> map (overlay_size small_frame_env) (overlays c)
           = map (\<lambda>k. (min (int (fst (image_size small_frame_env (?frames ! k)))) 958,
                        min (int (snd (image_size small_frame_env (?frames ! k)))) 538))
               [0 ..< length ?frames]"
    ..
  note run = all [THEN conjunct1, unfolded n p]
    and c = all [THEN conjunct2, THEN conjunct1, unfolded ov]
    and sizes = all [THEN conjunct2, THEN conjunct2, unfolded sz]
  have ovs: "overlays c
          = [\<lparr>input = \<lparr>frame_file = ''/f/a.jpg'', resize_width = 958, resize_height = 538,
                      withoutEnlargement = True\<rparr>, top_px = 1, left_px = 1\<rparr>,
             \<lparr>input = \<lparr>frame_file = ''/f/b.jpg'', resize_width = 958, resize_height = 538,
                      withoutEnlargement = True\<rparr>, top_px = 1, left_px = 961\<rparr>,
             \<lparr>input = \<lparr>frame_file = ''/f/c.jpg'', resize_width = 958, resize_height = 538,
                      withoutEnlargement = True\<rparr>, top_px = 541, left_px = 1\<rparr>]"
    unfolding c by simp
  show ?thesis
    using run [unfolded c] sizes [unfolded ovs] by (intro conjI)
qed

text \<open>
  C6 as stated, with every frame resized to 958 by 538, does not hold: \<open>createGrid\<close>
  passes \<open>withoutEnlargement: true\<close>, so a frame of 320 by 240 pixels is composited at
  320 by 240.
\<close>

theorem createGrid_small_frame_counterexample:
  "image_size small_frame_env ''/f/b.jpg'' = (320, 240)
   \<and> createGrid small_frame_env [''/f/b.jpg''] 0 empty_world =
       (Inr (),
        empty_world\<lparr>grid := Some (fmupd ''grid_000.jpg''
            \<lparr>canvas_width = 1920, canvas_height = 1080, background = (0, 0, 0),
             overlays =
               [\<lparr>input = \<lparr>frame_file = ''/f/b.jpg'', resize_width = 958, resize_height = 538,
                          withoutEnlargement = True\<rparr>, top_px = 1, left_px = 1\<rparr>]\<rparr>
            fmempty),
          composed := composed empty_world @ [''/work/content/grid/grid_000.jpg'']\<rparr>)
   \<and> overlay_size small_frame_env
         \<lparr>input = \<lparr>frame_file = ''/f/b.jpg'', resize_width = 958, resize_height = 538,
                   withoutEnlargement = True\<rparr>, top_px = 1, left_px = 1\<rparr>
       = (320, 240)
   \<and> overlay_size small_frame_env
         \<lparr>input = \<lparr>frame_file = ''/f/b.jpg'', resize_width = 958, resize_height = 538,
                   withoutEnlargement = True\<rparr>, top_px = 1, left_px = 1\<rparr>
       \<noteq> (958, 538)"
proof (intro conjI)
  show "image_size small_frame_env ''/f/b.jpg'' = (320, 240)"
    by (simp add: small_frame_env_def)
  show "createGrid small_frame_env [''/f/b.jpg''] 0 empty_world =
       (Inr (),
        empty_world\<lparr>grid := Some (fmupd ''grid_000.jpg''
            \<lparr>canvas_width = 1920, canvas_height = 1080, background = (0, 0, 0),
             overlays =
               [\<lparr>input = \<lparr>frame_file = ''/f/b.jpg'', resize_width = 958, resize_height = 538,
                          withoutEnlargement = True\<rparr>, top_px = 1, left_px = 1\<rparr>]\<rparr>
            fmempty),
          composed := composed empty_world @ [''/work/content/grid/grid_000.jpg'']\<rparr>)"
    by code_simp
  show sz: "overlay_size small_frame_env
         \<lparr>input = \<lparr>frame_file = ''/f/b.jpg'', resize_width = 958, resize_height = 538,
                   withoutEnlargement = True\<rparr>, top_px = 1, left_px = 1\<rparr>
       = (320, 240)"
    by code_simp
  show "overlay_size small_frame_env
         \<lparr>input = \<lparr>frame_file = ''/f/b.jpg'', resize_width = 958, resize_height = 538,
                   withoutEnlargement = True\<rparr>, top_px = 1, left_px = 1\<rparr>
       \<noteq> (958, 538)"
    unfolding sz by simp
qed

text \<open>
  C5. For a frame list of length \<open>n \<ge> 1\<close>, a run of \<open>createGrids\<close> that returns leaves
  exactly \<open>ceil(n / 4)\<close> entries in the grid folder, \<open>grid_000.jpg\<close> onwards; entry \<open>i\<close>
  holds the frames at indices \<open>4i .. 4i + 3\<close> of the list, in order, whatever the order
  in which the batches complete; every batch but the last has 4 frames, the last has
  \<open>n mod 4\<close> (or 4 when 4 divides \<open>n\<close>), and the batches in order make up the list.
\<close>

theorem createGrids_batches:
  assumes "1 \<le> length frameFiles" and "createGrids e frameFiles s = (Inr u, s')"
  shows "\<exists>dir. grid s' = Some dir
       \<and> fcard (fmdom dir) = nat \<lceil>(of_nat (length frameFiles) :: rat) / 4\<rceil>
       \<and> fmdom dir = fset_of_list
            (map (\<lambda>i. ''grid_'' @ padStart 3 CHR ''0'' (String (int i)) @ ''.jpg'')
               [0 ..< nat \<lceil>(of_nat (length frameFiles) :: rat) / 4\<rceil>])
       \<and> (\<forall>i < nat \<lceil>(of_nat (length frameFiles) :: rat) / 4\<rceil>.
            \<exists>c. fmlookup dir (''grid_'' @ padStart 3 CHR ''0'' (String (int i)) @ ''.jpg'') = Some c
              \<and> map (\<lambda>ov. frame_file (input ov)) (overlays c) = take 4 (drop (4 * i) frameFiles)
              \<and> length (overlays c)
                  = (if i + 1 < nat \<lceil>(of_nat (length frameFiles) :: rat) / 4\<rceil> then 4
                     else if length frameFiles mod 4 = 0 then 4
                     else length frameFiles mod 4))
       \<and> concat (map (\<lambda>i. take 4 (drop (4 * i) frameFiles))
                   [0 ..< nat \<lceil>(of_nat (length frameFiles) :: rat) / 4\<rceil>]) = frameFiles"
proof -
  define n where "n = length frameFiles"
  define m where "m = numGrids n"
  let ?comp = "\<lambda>i. gridComposite (slice (i * 4) ((i + 1) * 4) frameFiles)"
  define dir where "dir = fold (\<lambda>i. fmupd (gridName i) (?comp i)) (gridOrder e n) fmempty"
  have names: "(\<lambda>i. ''grid_'' @ padStart 3 CHR ''0'' (String (int i)) @ ''.jpg'') = gridName"
    by (simp add: gridName_def fun_eq_iff)
  have name: "\<And>i. ''grid_'' @ padStart 3 CHR ''0'' (String (int i)) @ ''.jpg'' = gridName i"
    by (simp add: gridName_def)
  have m': "nat \<lceil>(of_nat n :: rat) / 4\<rceil> = m"
    by (simp add: m_def numGrids_def)
  have g: "grid s' = Some dir"
    using createGrids_Inr [OF assms(2)] by (simp add: dir_def n_def)
  have dom: "fmdom dir = fset_of_list (map gridName [0 ..< m])"
  proof -
    have "fmdom dir = fset_of_list (map gridName (gridOrder e n))"
      unfolding dir_def by (simp add: fmdom_fold_upd)
    also have "\<dots> = fset_of_list (map gridName [0 ..< m])"
      by (rule fset_eqI) (simp add: fset_of_list.rep_eq set_gridOrder m_def)
    finally show ?thesis .
  qed
  have card: "fcard (fmdom dir) = m"
  proof -
    have "fcard (fmdom dir) = card (gridName ` {0 ..< m})"
      unfolding dom by (simp add: fcard.rep_eq fset_of_list.rep_eq)
    also have "\<dots> = m"
      using inj_gridName by (simp add: card_image)
    finally show ?thesis .
  qed
  have look: "\<forall>i < m. \<exists>c. fmlookup dir (gridName i) = Some c
              \<and> map (\<lambda>ov. frame_file (input ov)) (overlays c) = take 4 (drop (4 * i) frameFiles)
              \<and> length (overlays c)
                  = (if i + 1 < m then 4 else if n mod 4 = 0 then 4 else n mod 4)"
  proof (intro allI impI)
    fix i assume i: "i < m"
    then have "i \<in> set (gridOrder e n)" by (simp add: set_gridOrder m_def)
    with inj_gridName distinct_gridOrder
    have l: "fmlookup dir (gridName i) = Some (?comp i)"
      unfolding dir_def by (rule fmlookup_fold_written)
    have f: "map (\<lambda>ov. frame_file (input ov)) (overlays (?comp i)) = take 4 (drop (4 * i) frameFiles)"
      unfolding batch_frames slice_batch by simp
    have "length (overlays (?comp i)) = length (take 4 (drop (4 * i) frameFiles))"
      using f by (metis length_map)
    also have "\<dots> = (if i + 1 < m then 4 else if n mod 4 = 0 then 4 else n mod 4)"
      unfolding m_def using i n_def by (intro length_batch) (simp_all add: m_def)
    finally show "\<exists>c. fmlookup dir (gridName i) = Some c
              \<and> map (\<lambda>ov. frame_file (input ov)) (overlays c) = take 4 (drop (4 * i) frameFiles)
              \<and> length (overlays c)
                  = (if i + 1 < m then 4 else if n mod 4 = 0 then 4 else n mod 4)"
      using l f by blast
  qed
  have cat: "concat (map (\<lambda>i. take 4 (drop (4 * i) frameFiles)) [0 ..< m]) = frameFiles"
  proof -
    have "n \<le> 4 * m" unfolding m_def numGrids_div by arith
    then show ?thesis by (simp add: concat_chunks n_def)
  qed
  show ?thesis
    unfolding n_def [symmetric] m' names name
    using g dom card look cat by blast
qed

theorem createGrids_batches_witness:
  "1 \<le> length six_frames
   \<and> fst (createGrids sample_env six_frames stale_world) = Inr ()
   \<and> (\<exists>dir. grid (snd (createGrids sample_env six_frames stale_world)) = Some dir
          \<and> fcard (fmdom dir) = 2
          \<and> fmdom dir = {|''grid_000.jpg'', ''grid_001.jpg''|}
          \<and> (\<exists>c. fmlookup dir ''grid_001.jpg'' = Some c
                \<and> map (\<lambda>ov. frame_file (input ov)) (overlays c) = [''/f/4.jpg'', ''/f/5.jpg'']
                \<and> length (overlays c) = 2))"
proof -
  let ?run = "createGrids sample_env six_frames stale_world"
  have 1: "1 \<le> length six_frames" by (simp add: six_frames_def)
  have r: "fst ?run = Inr ()" by code_simp
  then have run: "?run = (Inr (), snd ?run)" by (metis prod.collapse)
  have m: "nat \<lceil>(of_nat (length six_frames) :: rat) / 4\<rceil> = 2" by code_simp
  have n0: "''grid_'' @ padStart 3 CHR ''0'' (String (int 0)) @ ''.jpg'' = ''grid_000.jpg''"
    and n1: "''grid_'' @ padStart 3 CHR ''0'' (String (int 1)) @ ''.jpg'' = ''grid_001.jpg''"
    by code_simp+
  from createGrids_batches [OF 1 run, unfolded m] obtain dir where
    all: "grid (snd ?run) = Some dir
       \<and> fcard (fmdom dir) = 2
       \<and> fmdom dir = fset_of_list
            (map (\<lambda>i. ''grid_'' @ padStart 3 CHR ''0'' (String (int i)) @ ''.jpg'') [0 ..< 2])
       \<and> (\<forall>i < 2.
            \<exists>c. fmlookup dir (''grid_'' @ padStart 3 CHR ''0'' (String (int i)) @ ''.jpg'') = Some c
              \<and> map (\<lambda>ov. frame_file (input ov)) (overlays c) = take 4 (drop (4 * i) six_frames)
              \<and> length (overlays c)
                  = (if i + 1 < 2 then 4
                     else if length six_frames mod 4 = 0 then 4
                     else length six_frames mod 4))
       \<and> concat (map (\<lambda>i. take 4 (drop (4 * i) six_frames)) [0 ..< 2]) = six_frames"
    ..
  note g = all [THEN conjunct1]
    and c = all [THEN conjunct2, THEN conjunct1]
    and d = all [THEN conjunct2, THEN conjunct2, THEN conjunct1]
    and l = all [THEN conjunct2, THEN conjunct2, THEN conjunct2, THEN conjunct1]
  have "[0 ..< 2] = [0, Suc 0]" by (simp add: upt_rec)
  then have d': "fmdom dir = {|''grid_000.jpg'', ''grid_001.jpg''|}"
    using d n0 n1 by simp
  from l have "\<exists>c. fmlookup dir (''grid_'' @ padStart 3 CHR ''0'' (String (int 1)) @ ''.jpg'') = Some c
              \<and> map (\<lambda>ov. frame_file (input ov)) (overlays c) = take 4 (drop (4 * 1) six_frames)
              \<and> length (overlays c)
                  = (if (1 :: nat) + 1 < 2 then 4
                     else if length six_frames mod 4 = 0 then 4
                     else length six_frames mod 4)"
    by (rule allE [where x = 1]) simp
  then have l1: "\<exists>c. fmlookup dir ''grid_001.jpg'' = Some c
                \<and> map (\<lambda>ov. frame_file (input ov)) (overlays c) = [''/f/4.jpg'', ''/f/5.jpg'']
                \<and> length (overlays c) = 2"
    unfolding n1 by (simp add: six_frames_def)
  have "\<exists>dir. grid (snd ?run) = Some dir
          \<and> fcard (fmdom dir) = 2
          \<and> fmdom dir = {|''grid_000.jpg'', ''grid_001.jpg''|}
          \<and> (\<exists>c. fmlookup dir ''grid_001.jpg'' = Some c
                \<and> map (\<lambda>ov. frame_file (input ov)) (overlays c) = [''/f/4.jpg'', ''/f/5.jpg'']
                \<and> length (overlays c) = 2)"
    using g c d' l1 by (intro exI [where x = dir] conjI)
  with 1 r show ?thesis by (intro conjI)
qed

section \<open>What a run leaves behind, whatever its outcome\<close>

text \<open>
  Errors of the extraction and composition stages are never \<open>VideoProcessingError\<close>s,
  and writing starts only once the purge has succeeded: from then on every entry of the
  folder is one the run wrote. This holds for runs that fail or never return as well.
\<close>

lemma extractFrame_other:
  assumes "extractFrame e v t p s = (r, s')"
  shows "grid s' = grid s \<and> composed s' = composed s"
  using assms by (auto simp: extractFrame_def split: option.splits if_splits)

lemma extractFrame_Inl:
  assumes "extractFrame e v t p s = (Some (Inl err), s')"
  shows "err = Error \<and> s' = s"
  using assms by (auto simp: extractFrame_def split: option.splits if_splits)

lemma extractFrame_None:
  assumes "extractFrame e v t p s = (None, s')"
  shows "s' = s"
  using assms by (auto simp: extractFrame_def split: option.splits if_splits)

lemma extractFrame_fresh:
  assumes "extractFrame e v t (framePath e k) s = (r, s')" and "frames_fresh e s0 s"
  shows "frames_fresh e s0 s'"
proof (cases r)
  case None
  then show ?thesis using assms extractFrame_None by blast
next
  case (Some r')
  show ?thesis
  proof (cases r')
    case (Inl err)
    then show ?thesis using assms Some extractFrame_Inl by blast
  next
    case (Inr u)
    from assms(2) obtain dir new where
      d: "frames s = Some dir" and x: "extracted s = extracted s0 @ new" and
      f: "\<forall>name. name |\<in>| fmdom dir \<longrightarrow>
            (\<exists>t. (t, path_join (framesFolder (cwd e)) name) \<in> set new)"
      unfolding frames_fresh_def by blast
    from extractFrame_Inr [OF assms(1) [unfolded Some Inr]] d have
      s': "s' = s\<lparr>frames := Some (fmupd (frameName k) \<lparr>video = v, timestamp = t\<rparr> dir),
                   extracted := extracted s @ [(t, framePath e k)]\<rparr>"
      by (auto simp: basename_framePath)
    show ?thesis
      unfolding frames_fresh_def
    proof (rule exI [where x = "fmupd (frameName k) \<lparr>video = v, timestamp = t\<rparr> dir"],
           rule exI [where x = "new @ [(t, framePath e k)]"], intro conjI allI impI)
      show "frames s' = Some (fmupd (frameName k) \<lparr>video = v, timestamp = t\<rparr> dir)"
        by (simp add: s')
      show "extracted s' = extracted s0 @ (new @ [(t, framePath e k)])"
        by (simp add: s' x)
      fix name
      assume "name |\<in>| fmdom (fmupd (frameName k) \<lparr>video = v, timestamp = t\<rparr> dir)"
      then consider "name = frameName k" | "name |\<in>| fmdom dir" by auto
      then show "\<exists>t'. (t', path_join (framesFolder (cwd e)) name) \<in> set (new @ [(t, framePath e k)])"
      proof cases
        case 1
        then show ?thesis by (auto simp: framePath_def)
      next
        case 2
        then show ?thesis using f by auto
      qed
    qed
  qed
qed

lemma extractFrame_outcome:
  assumes "extractFrame e v t (framePath e k) s = (r, s')" and "frames_fresh e s0 s"
  shows "frames_fresh e s0 s' \<and> grid s' = grid s \<and> composed s' = composed s
       \<and> (\<forall>err. r = Some (Inl err) \<longrightarrow> err = Error)"
  using extractFrame_fresh [OF assms] extractFrame_other [OF assms(1)]
    extractFrame_Inl [of e v t "framePath e k" s _ s'] assms(1)
  by auto

lemma extractMiddle_fresh:
  assumes "extractMiddle e v iv order acc s = (r, s')" and "frames_fresh e s0 s"
  shows "frames_fresh e s0 s' \<and> grid s' = grid s \<and> composed s' = composed s
       \<and> (\<forall>err. r = Some (Inl err) \<longrightarrow> err = Error)"
  using assms
proof (induction order arbitrary: acc s r)
  case Nil
  then show ?case by auto
next
  case (Cons i rest)
  let ?t = "(of_nat i + 1) * iv" and ?p = "framePath e (Suc i)"
  obtain r1 s1 where 1: "extractFrame e v ?t ?p s = (r1, s1)" by (metis surj_pair)
  note o1 = extractFrame_outcome [OF 1 Cons.prems(2)]
  note unf = Cons.prems(1) [unfolded extractMiddle_Cons 1]
  show ?case
  proof (cases r1)
    case None
    obtain r2 where 2: "extractMiddle e v iv rest acc s1 = (r2, s')"
      and r: "\<forall>err. r = Some (Inl err) \<longrightarrow> r2 = Some (Inl err)"
      using unf None by (auto split: prod.splits option.splits sum.splits)
    show ?thesis using Cons.IH [OF 2] o1 r by auto
  next
    case (Some r1')
    show ?thesis
    proof (cases r1')
      case (Inl err)
      obtain r2 where 2: "extractMiddle e v iv rest acc s1 = (r2, s')" and r: "r = Some (Inl err)"
        using unf Some Inl by (auto split: prod.splits)
      show ?thesis using Cons.IH [OF 2] o1 r Some Inl by auto
    next
      case (Inr u)
      then have 2: "extractMiddle e v iv rest (acc @ [?p]) s1 = (r, s')"
        using unf Some by simp
      show ?thesis using Cons.IH [OF 2] o1 by auto
    qed
  qed
qed

lemma frames_fresh_start:
  "extracted s0' = extracted s0 \<Longrightarrow> frames_fresh e s0 s \<Longrightarrow> frames_fresh e s0' s"
  by (simp add: frames_fresh_def)

lemma frames_fresh_later:
  "frames s' = frames s \<Longrightarrow> extracted s' = extracted s \<Longrightarrow> frames_fresh e s0 s
     \<Longrightarrow> frames_fresh e s0 s'"
  by (simp add: frames_fresh_def)

lemma grid_fresh_start:
  "composed s0' = composed s0 \<Longrightarrow> grid_fresh e s0 s \<Longrightarrow> grid_fresh e s0' s"
  by (simp add: grid_fresh_def)

lemma unlinkAll_Inl: "unlinkAll e folder dir = (Inl err, dir') \<Longrightarrow> err = Error"
  by (auto simp: unlinkAll_def split: if_splits)

lemma prepareOutputFolder_outcome:
  assumes "prepareOutputFolder e s = (r, s1)"
  shows "grid s1 = grid s \<and> composed s1 = composed s \<and> extracted s1 = extracted s
       \<and> (\<forall>err. r = Inl err \<longrightarrow> err = Error)"
  using assms
  by (auto simp: prepareOutputFolder_def split: option.splits if_splits sum.splits prod.splits
        dest: unlinkAll_Inl)

lemma extractFrames_outcome:
  assumes "0 < d" and "extractFrames e v d s = (r, s')"
  shows "grid s' = grid s \<and> composed s' = composed s
       \<and> (\<forall>err. r = Some (Inl err) \<longrightarrow> err = Error)
       \<and> (extracted s' = extracted s \<or> frames_fresh e s s')"
proof -
  let ?last = "framePath e (nat (frameCount d - 1))"
  obtain r1 s1 where 1: "prepareOutputFolder e s = (r1, s1)" by (metis surj_pair)
  note o1 = prepareOutputFolder_outcome [OF 1]
  show ?thesis
  proof (cases r1)
    case (Inl err)
    then have "r = Some (Inl err)" and "s' = s1"
      using assms(2) 1 unfolding extractFrames_unfold [OF assms(1)] by auto
    then show ?thesis using o1 Inl by auto
  next
    case (Inr u1)
    then have s1: "s1 = s\<lparr>frames := Some fmempty\<rparr>"
      using prepareOutputFolder_Inr 1 by blast
    then have f1: "frames_fresh e s s1" by (simp add: frames_fresh_def)
    obtain r2 s2 where 2: "extractFrame e v 0 (framePath e 0) s1 = (r2, s2)" by (metis surj_pair)
    note o2 = extractFrame_outcome [OF 2 f1]
    obtain r3 s3 where
      3: "extractMiddle e v (spacing d) (middleOrder e d) [framePath e 0] s2 = (r3, s3)"
      by (metis surj_pair)
    note o3 = extractMiddle_fresh [OF 3 o2 [THEN conjunct1]]
    obtain r4 s4 where 4: "extractFrame e v (d - 1 / 10) ?last s3 = (r4, s4)"
      by (metis surj_pair)
    note o4 = extractFrame_outcome [OF 4 o3 [THEN conjunct1]]
    have k: "(s' = s2 \<or> s' = s3 \<or> s' = s4)
           \<and> (\<forall>err. r = Some (Inl err) \<longrightarrow>
                 r2 = Some (Inl err) \<or> r3 = Some (Inl err) \<or> r4 = Some (Inl err))"
      using assms(2) 1 2 3 4 Inr unfolding extractFrames_unfold [OF assms(1)]
      by (auto split: option.splits sum.splits)
    have "frames_fresh e s s'" using k o2 o3 o4 by blast
    moreover have "grid s' = grid s \<and> composed s' = composed s"
      using k o1 o2 o3 o4 s1 by auto
    moreover have "\<forall>err. r = Some (Inl err) \<longrightarrow> err = Error"
      using k o2 o3 o4 by blast
    ultimately show ?thesis by blast
  qed
qed

lemma createGrid_fresh:
  assumes "createGrid e batch i s = (r, s')" and "grid_fresh e s0 s"
  shows "grid_fresh e s0 s' \<and> frames s' = frames s \<and> extracted s' = extracted s
       \<and> (\<forall>err. r = Inl err \<longrightarrow> err = Error)"
proof (cases "batch = []")
  case True
  then have "s' = s" and "r = Inr ()" using assms(1) by (simp_all add: createGrid_def)
  then show ?thesis using assms(2) by simp
next
  case False
  from assms(2) obtain dir new where
    d: "grid s = Some dir" and x: "composed s = composed s0 @ new" and
    f: "\<forall>name. name |\<in>| fmdom dir \<longrightarrow> path_join (gridFolder (cwd e)) name \<in> set new"
    unfolding grid_fresh_def by blast
  show ?thesis
  proof (cases "sharp_ok e batch (gridPath e i)")
    case False
    then have "s' = s" and "r = Inl Error"
      using assms(1) d unfolding createGrid_unfold [OF \<open>batch \<noteq> []\<close>] by simp_all
    then show ?thesis using assms(2) by simp
  next
    case True
    then have s': "s' = s\<lparr>grid := Some (fmupd (gridName i) (gridComposite batch) dir),
                           composed := composed s @ [gridPath e i]\<rparr>" and r: "r = Inr ()"
      using assms(1) d unfolding createGrid_unfold [OF \<open>batch \<noteq> []\<close>] by simp_all
    have "grid_fresh e s0 s'"
      unfolding grid_fresh_def
    proof (rule exI [where x = "fmupd (gridName i) (gridComposite batch) dir"],
           rule exI [where x = "new @ [gridPath e i]"], intro conjI allI impI)
      show "grid s' = Some (fmupd (gridName i) (gridComposite batch) dir)" by (simp add: s')
      show "composed s' = composed s0 @ (new @ [gridPath e i])" by (simp add: s' x)
      fix name
      assume "name |\<in>| fmdom (fmupd (gridName i) (gridComposite batch) dir)"
      then consider "name = gridName i" | "name |\<in>| fmdom dir" by auto
      then show "path_join (gridFolder (cwd e)) name \<in> set (new @ [gridPath e i])"
      proof cases
        case 1
        then show ?thesis by (simp add: gridPath_def)
      next
        case 2
        then show ?thesis using f by simp
      qed
    qed
    then show ?thesis using r by (simp add: s')
  qed
qed

lemma createBatches_fresh:
  assumes "createBatches e frameFiles order s = (r, s')" and "grid_fresh e s0 s"
  shows "grid_fresh e s0 s' \<and> frames s' = frames s \<and> extracted s' = extracted s
       \<and> (\<forall>err. r = Inl err \<longrightarrow> err = Error)"
  using assms
proof (induction order arbitrary: s r)
  case Nil
  then show ?case by auto
next
  case (Cons i rest)
  let ?batch = "slice (i * 4) ((i + 1) * 4) frameFiles"
  obtain r1 s1 where 1: "createGrid e ?batch i s = (r1, s1)" by (metis surj_pair)
  note g1 = createGrid_fresh [OF 1 Cons.prems(2)]
  show ?case
  proof (cases r1)
    case (Inl err)
    obtain r2 where 2: "createBatches e frameFiles rest s1 = (r2, s')" and r: "r = Inl err"
      using Cons.prems(1) 1 Inl by (auto simp: Let_def split: prod.splits)
    show ?thesis using Cons.IH [OF 2] g1 r Inl by auto
  next
    case (Inr u)
    then have 2: "createBatches e frameFiles rest s1 = (r, s')"
      using Cons.prems(1) 1 by (simp add: Let_def)
    show ?thesis using Cons.IH [OF 2] g1 by auto
  qed
qed

lemma createGrids_outcome:
  assumes "createGrids e frameFiles s = (r, s')"
  shows "frames s' = frames s \<and> extracted s' = extracted s
       \<and> (\<forall>err. r = Inl err \<longrightarrow> err = Error)
       \<and> (composed s' = composed s \<or> grid_fresh e s s')"
proof (cases "grid s = None \<and> \<not> mkdir_ok e (gridFolder (cwd e))")
  case True
  then have "s' = s" and "r = Inl Error"
    using assms by (auto simp: createGrids_def)
  then show ?thesis by simp
next
  case False
  define dir where "dir = (case grid s of None \<Rightarrow> fmempty | Some m \<Rightarrow> m)"
  show ?thesis
  proof (cases "readdir_ok e (gridFolder (cwd e))")
    case no: False
    then have "s' = s\<lparr>grid := Some dir\<rparr>" and "r = Inl Error"
      using assms False by (auto simp: createGrids_def dir_def split: option.splits)
    then show ?thesis by simp
  next
    case yes: True
    obtain r1 dir' where 1: "unlinkAll e (gridFolder (cwd e)) dir = (r1, dir')"
      by (metis surj_pair)
    show ?thesis
    proof (cases r1)
      case (Inl err)
      then have "s' = s\<lparr>grid := Some dir'\<rparr>" and "r = Inl err"
        using assms False yes 1 by (auto simp: createGrids_def dir_def split: option.splits)
      moreover have "err = Error" using unlinkAll_Inl 1 Inl by blast
      ultimately show ?thesis by simp
    next
      case (Inr u)
      then have dir': "dir' = fmempty" using unlinkAll_Inr 1 by blast
      have 2: "createBatches e frameFiles (gridOrder e (length frameFiles))
                 (s\<lparr>grid := Some fmempty\<rparr>) = (r, s')"
        using assms False yes 1 Inr dir'
        by (auto simp: createGrids_def dir_def gridOrder_def numGrids_def Let_def
              split: option.splits)
      have "grid_fresh e s (s\<lparr>grid := Some fmempty\<rparr>)" by (simp add: grid_fresh_def)
      from createBatches_fresh [OF 2 this] show ?thesis by simp
    qed
  qed
qed

lemma validateFolderPermissions_outcome:
  assumes "validateFolderPermissions e s = (r, s1)"
  shows "entries (frames s1) = entries (frames s) \<and> grid s1 = grid s
       \<and> extracted s1 = extracted s \<and> composed s1 = composed s"
  using assms
  by (auto simp: validateFolderPermissions_def entries_def split: if_splits option.splits)

lemma validateDuration_Inr: "validateDuration e v = Inr d \<Longrightarrow> 0 < d \<and> d \<le> 300"
  by (auto simp: validateDuration_def Let_def split: option.splits number.splits if_splits)

lemma rethrow_Error: "rethrow Error = VideoProcessingError UNKNOWN_ERROR"
  by (simp add: rethrow_def)

lemma rethrow_code: "rethrow (VideoProcessingError c) = VideoProcessingError c"
  by (simp add: rethrow_def)

text \<open>The stages of \<open>process\<close>, one at a time.\<close>

lemma process_stages:
  "process e s =
     (if \<not> ffmpeg_version_ok e then (Some (Inl (VideoProcessingError FFMPEG_NOT_FOUND)), s)
      else case validateFolderPermissions e s of
             (Inl err, s1) \<Rightarrow> (Some (Inl (rethrow err)), s1)
           | (Inr _, s1) \<Rightarrow>
               (case findVideo e of
                  Inl err \<Rightarrow> (Some (Inl (rethrow err)), s1)
                | Inr videoPath \<Rightarrow>
                    (case validateDuration e videoPath of
                       Inl err \<Rightarrow> (Some (Inl (rethrow err)), s1)
                     | Inr duration \<Rightarrow>
                         (case extractFrames e videoPath duration s1 of
                            (None, s2) \<Rightarrow> (None, s2)
                          | (Some (Inl err), s2) \<Rightarrow> (Some (Inl (rethrow err)), s2)
                          | (Some (Inr frameFiles), s2) \<Rightarrow>
                              (case createGrids e frameFiles s2 of
                                 (Inl err, s3) \<Rightarrow> (Some (Inl (rethrow err)), s3)
                               | (Inr _, s3) \<Rightarrow> (Some (Inr ()), s3))))))"
  by (simp add: process_def validateFFmpeg_def rethrow_def)

lemma process_outcome:
  assumes "process e s = (r, s')"
  shows "(extracted s' = extracted s \<or> frames_fresh e s s')
       \<and> (composed s' = composed s \<or> grid_fresh e s s')
       \<and> (r \<noteq> Some (Inr ()) \<and> r \<noteq> None
            \<and> r \<noteq> Some (Inl (VideoProcessingError UNKNOWN_ERROR)) \<longrightarrow>
            extracted s' = extracted s \<and> composed s' = composed s
          \<and> entries (frames s') = entries (frames s) \<and> grid s' = grid s)"
proof (cases "ffmpeg_version_ok e")
  case False
  then show ?thesis using assms by (simp add: process_stages)
next
  case True
  obtain r1 s1 where 1: "validateFolderPermissions e s = (r1, s1)" by (metis surj_pair)
  note o1 = validateFolderPermissions_outcome [OF 1]
  show ?thesis
  proof (cases r1)
    case (Inl err)
    then have "s' = s1" using assms True 1 by (simp add: process_stages)
    then show ?thesis using o1 by simp
  next
    case (Inr u1)
    show ?thesis
    proof (cases "findVideo e")
      case (Inl err)
      then have "s' = s1" using assms True 1 Inr by (simp add: process_stages)
      then show ?thesis using o1 by simp
    next
      case v: (Inr v)
      show ?thesis
      proof (cases "validateDuration e v")
        case (Inl err)
        then have "s' = s1" using assms True 1 Inr v by (simp add: process_stages)
        then show ?thesis using o1 by simp
      next
        case d: (Inr d)
        then have pos: "0 < d" using validateDuration_Inr by blast
        obtain r2 s2 where 2: "extractFrames e v d s1 = (r2, s2)" by (metis surj_pair)
        note o2 = extractFrames_outcome [OF pos 2]
        have fr2: "extracted s2 = extracted s \<or> frames_fresh e s s2"
          using o2 o1 frames_fresh_start [of s s1 e s2] by auto
        have gr2: "composed s2 = composed s" using o2 o1 by simp
        show ?thesis
        proof (cases r2)
          case None
          then have "s' = s2" and "r = None"
            using assms True 1 Inr v d 2 by (simp_all add: process_stages)
          then show ?thesis using fr2 gr2 by simp
        next
          case (Some r2')
          show ?thesis
          proof (cases r2')
            case (Inl err)
            then have "s' = s2" and "r = Some (Inl (rethrow err))"
              using assms True 1 Inr v d 2 Some by (simp_all add: process_stages)
            moreover have "err = Error" using o2 Some Inl by simp
            ultimately show ?thesis using fr2 gr2 by (simp add: rethrow_Error)
          next
            case files: (Inr files)
            obtain r3 s3 where 3: "createGrids e files s2 = (r3, s3)" by (metis surj_pair)
            note o3 = createGrids_outcome [OF 3]
            have s': "s' = s3"
              using assms True 1 Inr v d 2 Some files 3
              by (auto simp: process_stages split: sum.splits)
            have r: "r = Some (Inr ()) \<or> r = Some (Inl (VideoProcessingError UNKNOWN_ERROR))"
              using assms True 1 Inr v d 2 Some files 3 o3
              by (auto simp: process_stages rethrow_Error split: sum.splits)
            have fr3: "extracted s3 = extracted s \<or> frames_fresh e s s3"
              using fr2 o3 frames_fresh_later [of s3 s2 e s] by auto
            have gr3: "composed s3 = composed s \<or> grid_fresh e s s3"
              using o3 o2 o1 grid_fresh_start [of s s2 e s3] by auto
            show ?thesis using fr3 gr3 r by (auto simp: s')
          qed
        qed
      qed
    qed
  qed
qed

section \<open>Runs return when the environment does not fail\<close>

text \<open>
  The statements about runs that return are not empty: in an environment whose
  \<open>mkdir\<close>, \<open>readdir\<close>, \<open>unlink\<close>, decoder and \<open>sharp\<close> calls do not fail, \<open>extractFrames\<close>
  returns for every duration of at least two seconds, \<open>createGrids\<close> returns for every
  frame list, and \<open>process\<close> returns once its validation stages have passed on such a
  video. On a shorter video the run in such an environment never returns.
\<close>

lemma unlinkAll_returns:
  assumes "cooperative e"
  shows "unlinkAll e folder dir = (Inr (), fmempty)"
proof -
  have "fmfilter (\<lambda>file. \<not> unlink_ok e (path_join folder file)) dir = fmempty"
    using assms by (simp add: cooperative_def)
  moreover have "fmpred (\<lambda>file _. unlink_ok e (path_join folder file)) dir"
    using assms by (intro fmpredI) (simp add: cooperative_def)
  ultimately show ?thesis by (simp add: unlinkAll_def)
qed

lemma prepareOutputFolder_returns:
  assumes "cooperative e"
  shows "prepareOutputFolder e s = (Inr (), s\<lparr>frames := Some fmempty\<rparr>)"
  using assms
  by (cases "frames s")
     (simp_all add: prepareOutputFolder_def unlinkAll_returns [OF assms] cooperative_def)

lemma extractFrame_returns:
  assumes "cooperative e" and "frames s = Some dir" and "fmlookup dir (basename p) = None"
  shows "extractFrame e v t p s =
           (Some (Inr ()),
            s\<lparr>frames := Some (fmupd (basename p) \<lparr>video = v, timestamp = t\<rparr> dir),
              extracted := extracted s @ [(t, p)]\<rparr>)"
  using assms by (simp add: extractFrame_def cooperative_def)

lemma extractMiddle_returns:
  assumes "cooperative e" and "frames s = Some dir" and "distinct order"
    and "\<forall>i \<in> set order. fmlookup dir (frameName (Suc i)) = None"
  shows "\<exists>files s'. extractMiddle e v iv order acc s = (Some (Inr files), s')"
  using assms(2-)
proof (induction order arbitrary: acc s dir)
  case Nil
  then show ?case by simp
next
  case (Cons i rest)
  let ?t = "(of_nat i + 1) * iv" and ?p = "framePath e (Suc i)"
  let ?dir1 = "fmupd (frameName (Suc i)) \<lparr>video = v, timestamp = ?t\<rparr> dir"
  let ?s1 = "s\<lparr>frames := Some ?dir1, extracted := extracted s @ [(?t, ?p)]\<rparr>"
  have "fmlookup dir (basename ?p) = None"
    using Cons.prems(3) by (simp add: basename_framePath)
  from extractFrame_returns [OF assms(1) Cons.prems(1) this, of v ?t]
  have 1: "extractFrame e v ?t ?p s = (Some (Inr ()), ?s1)"
    by (simp add: basename_framePath)
  have d1: "frames ?s1 = Some ?dir1" by simp
  have "\<forall>j \<in> set rest. fmlookup ?dir1 (frameName (Suc j)) = None"
  proof
    fix j assume j: "j \<in> set rest"
    then have "j \<noteq> i" using Cons.prems(2) by auto
    then have "frameName (Suc j) \<noteq> frameName (Suc i)" using frameName_inj by blast
    then show "fmlookup ?dir1 (frameName (Suc j)) = None"
      using Cons.prems(3) j by simp
  qed
  from Cons.IH [OF d1 _ this, of "acc @ [?p]"] Cons.prems(2) obtain files s' where
    "extractMiddle e v iv rest (acc @ [?p]) ?s1 = (Some (Inr files), s')"
    by auto
  then show ?case unfolding extractMiddle_Cons 1 by simp
qed

lemma frameCount_from_two_seconds: "2 \<le> d \<Longrightarrow> 2 \<le> frameCount d"
  by (auto simp: frameCount_def getFrameConfig_def Let_def le_floor_iff)

lemma extractFrames_returns:
  assumes "cooperative e" and "2 \<le> d"
  shows "\<exists>files s'. extractFrames e v d s = (Some (Inr files), s')"
proof -
  have pos: "0 < d" using assms(2) by simp
  have fc2: "2 \<le> frameCount d" using assms(2) by (rule frameCount_from_two_seconds)
  let ?v0 = "\<lparr>video = v, timestamp = 0\<rparr>"
  let ?dir2 = "fmupd (frameName 0) ?v0 fmempty"
  let ?s1 = "s\<lparr>frames := Some fmempty\<rparr>"
  let ?s2 = "?s1\<lparr>frames := Some ?dir2, extracted := extracted ?s1 @ [(0, framePath e 0)]\<rparr>"
  let ?last = "nat (frameCount d - 1)"
  have 1: "prepareOutputFolder e s = (Inr (), ?s1)"
    using assms(1) by (rule prepareOutputFolder_returns)
  have "frames ?s1 = Some fmempty" by simp
  from extractFrame_returns [OF assms(1) this, of "framePath e 0" v 0]
  have 2: "extractFrame e v 0 (framePath e 0) ?s1 = (Some (Inr ()), ?s2)"
    by (simp add: basename_framePath)
  have d2: "frames ?s2 = Some ?dir2" by simp
  have free: "\<forall>i \<in> set (middleOrder e d). fmlookup ?dir2 (frameName (Suc i)) = None"
  proof
    fix i
    have "frameName (Suc i) \<noteq> frameName 0" using frameName_inj by blast
    then show "fmlookup ?dir2 (frameName (Suc i)) = None" by simp
  qed
  from extractMiddle_returns [OF assms(1) d2 distinct_middleOrder free,
      of v "spacing d" "[framePath e 0]"]
  obtain mid s3 where
    3: "extractMiddle e v (spacing d) (middleOrder e d) [framePath e 0] ?s2 = (Some (Inr mid), s3)"
    by blast
  let ?dir3 = "fold (\<lambda>i. fmupd (frameName (Suc i))
                       \<lparr>video = v, timestamp = (of_nat i + 1) * spacing d\<rparr>)
                 (middleOrder e d) ?dir2"
  have d3: "frames s3 = Some ?dir3"
    using extractMiddle_Inr [OF 3 d2] by simp
  have "frameName ?last \<notin> (\<lambda>i. frameName (Suc i)) ` set (middleOrder e d)"
  proof
    assume "frameName ?last \<in> (\<lambda>i. frameName (Suc i)) ` set (middleOrder e d)"
    then obtain i where "i \<in> set (middleOrder e d)" and "frameName ?last = frameName (Suc i)"
      by blast
    then have "i < nat (frameCount d - 2)" and "?last = Suc i"
      using frameName_inj by (simp_all add: set_middleOrder)
    then show False using fc2 by linarith
  qed
  then have "fmlookup ?dir3 (frameName ?last) = fmlookup ?dir2 (frameName ?last)"
    by (rule fmlookup_fold_other)
  moreover have "frameName ?last \<noteq> frameName 0"
    using fc2 frameName_inj [of ?last 0] by auto
  ultimately have "fmlookup ?dir3 (basename (framePath e ?last)) = None"
    by (simp add: basename_framePath)
  from extractFrame_returns [OF assms(1) d3 this, of v "d - 1 / 10"] obtain s4 where
    4: "extractFrame e v (d - 1 / 10) (framePath e ?last) s3 = (Some (Inr ()), s4)"
    by blast
  show ?thesis
    unfolding extractFrames_unfold [OF pos] using 1 2 3 4 by simp
qed


lemma createBatches_returns:
  assumes "cooperative e" and "grid s = Some dir"
  shows "\<exists>s'. createBatches e frameFiles order s = (Inr (), s')"
  using assms(2)
proof (induction order arbitrary: s dir)
  case Nil
  then show ?case by simp
next
  case (Cons i rest)
  let ?batch = "slice (i * 4) ((i + 1) * 4) frameFiles"
  have "\<exists>s1 dir1. createGrid e ?batch i s = (Inr (), s1) \<and> grid s1 = Some dir1"
  proof (cases "?batch = []")
    case True
    then show ?thesis using Cons.prems by (simp add: createGrid_def)
  next
    case False
    then show ?thesis
      using Cons.prems assms(1) unfolding createGrid_unfold [OF False]
      by (simp add: cooperative_def)
  qed
  then obtain s1 dir1 where 1: "createGrid e ?batch i s = (Inr (), s1)" and "grid s1 = Some dir1"
    by blast
  from Cons.IH [OF this(2)] obtain s' where "createBatches e frameFiles rest s1 = (Inr (), s')"
    by blast
  then show ?case using 1 by (simp add: Let_def)
qed

lemma createGrids_returns:
  assumes "cooperative e"
  shows "\<exists>s'. createGrids e frameFiles s = (Inr (), s')"
proof -
  have "\<And>dir. \<exists>s'. createBatches e frameFiles
                 (completion_order (completes_next e)
                    [0 ..< nat \<lceil>(of_nat (length frameFiles) :: rat) / 4\<rceil>])
                 (s\<lparr>grid := Some fmempty\<rparr>) = (Inr (), s')"
    using assms by (intro createBatches_returns) simp_all
  then show ?thesis
    using assms
    by (cases "grid s")
       (simp_all add: createGrids_def unlinkAll_returns [OF assms] cooperative_def Let_def)
qed

lemma process_returns:
  assumes "cooperative e" and "ffmpeg_version_ok e" and "source_readable e"
    and "findVideo e = Inr v" and "validateDuration e v = Inr d" and "2 \<le> d"
  shows "\<exists>s'. process e s = (Some (Inr ()), s')"
proof -
  obtain s1 where 1: "validateFolderPermissions e s = (Inr (), s1)"
    using assms(1,3) by (cases "frames s") (auto simp: validateFolderPermissions_def cooperative_def)
  from extractFrames_returns [OF assms(1,6)] obtain files s2 where
    2: "extractFrames e v d s1 = (Some (Inr files), s2)" by blast
  from createGrids_returns [OF assms(1)] obtain s3 where
    3: "createGrids e files s2 = (Inr (), s3)" by blast
  show ?thesis
    using assms(2,4,5) 1 2 3 by (simp add: process_stages)
qed

section \<open>Videos shorter than the sampling interval\<close>




section \<open>Failing fast\<close>

lemma findVideo_count:
  assumes "readdir_source e = Some files"
  shows "(filter (\<lambda>file. toLowerCase (extname file) \<in> set supportedFormats) files = []
            \<longrightarrow> findVideo e = Inl (VideoProcessingError NO_VIDEO_FOUND))
       \<and> (1 < length (filter (\<lambda>file. toLowerCase (extname file) \<in> set supportedFormats) files)
            \<longrightarrow> findVideo e = Inl (VideoProcessingError MULTIPLE_VIDEOS))
       \<and> (\<forall>file size'. filter (\<lambda>file. toLowerCase (extname file) \<in> set supportedFormats) files = [file]
              \<and> stat_size e (path_join (sourceFolder (cwd e)) file) = Some size' \<and> size' \<noteq> 0
            \<longrightarrow> findVideo e = Inr (path_join (sourceFolder (cwd e)) file))"
  using assms by (auto simp: findVideo_def Let_def)

text \<open>
  C7, as amended. Provided the decoder check and the folder-permission check pass and
  the source folder can be listed: with no supported video file the run fails with
  \<open>NO_VIDEO_FOUND\<close>; with more than one, with \<open>MULTIPLE_VIDEOS\<close>; with exactly one, not
  empty, whose reported duration exceeds 300 seconds (301, say), with
  \<open>DURATION_TOO_LONG\<close>. And whenever a run fails with one of these three codes, no frame
  has been extracted, no grid composed, and the entries of the frames and grid folders
  are those from before the run (the permission check may have created the frames
  folder, empty).
\<close>

theorem process_fails_before_purge:
  assumes "ffmpeg_version_ok e" and "source_readable e"
    and "frames s \<noteq> None \<or> mkdir_ok e (framesFolder (cwd e))"
    and "readdir_source e = Some files"
    and "videoFiles = filter (\<lambda>file. toLowerCase (extname file) \<in> set supportedFormats) files"
    and "process e s = (r, s')"
  shows "(videoFiles = [] \<longrightarrow> r = Some (Inl (VideoProcessingError NO_VIDEO_FOUND)))
       \<and> (1 < length videoFiles \<longrightarrow> r = Some (Inl (VideoProcessingError MULTIPLE_VIDEOS)))
       \<and> (\<forall>file size' d.
             videoFiles = [file]
             \<and> stat_size e (path_join (sourceFolder (cwd e)) file) = Some size' \<and> size' \<noteq> 0
             \<and> getVideoDurationInSeconds e (path_join (sourceFolder (cwd e)) file) = Some (Num d)
             \<and> 300 < d
            \<longrightarrow> r = Some (Inl (VideoProcessingError DURATION_TOO_LONG)))
       \<and> (r = Some (Inl (VideoProcessingError NO_VIDEO_FOUND))
            \<or> r = Some (Inl (VideoProcessingError MULTIPLE_VIDEOS))
            \<or> r = Some (Inl (VideoProcessingError DURATION_TOO_LONG))
            \<longrightarrow> extracted s' = extracted s \<and> composed s' = composed s
              \<and> entries (frames s') = entries (frames s) \<and> grid s' = grid s)"
proof -
  have "\<exists>s1. validateFolderPermissions e s = (Inr (), s1)"
    using assms(2,3) by (cases "frames s") (auto simp: validateFolderPermissions_def)
  then obtain s1 where 1: "validateFolderPermissions e s = (Inr (), s1)" ..
  note fv = findVideo_count [OF assms(4), folded assms(5)]
  have a: "videoFiles = [] \<longrightarrow> r = Some (Inl (VideoProcessingError NO_VIDEO_FOUND))"
    using assms(1,6) 1 fv by (auto simp: process_stages rethrow_code)
  have b: "1 < length videoFiles \<longrightarrow> r = Some (Inl (VideoProcessingError MULTIPLE_VIDEOS))"
    using assms(1,6) 1 fv by (auto simp: process_stages rethrow_code)
  have c: "\<forall>file size' d.
             videoFiles = [file]
             \<and> stat_size e (path_join (sourceFolder (cwd e)) file) = Some size' \<and> size' \<noteq> 0
             \<and> getVideoDurationInSeconds e (path_join (sourceFolder (cwd e)) file) = Some (Num d)
             \<and> 300 < d
            \<longrightarrow> r = Some (Inl (VideoProcessingError DURATION_TOO_LONG))"
  proof (intro allI impI, elim conjE)
    fix f size' d
    assume v: "videoFiles = [f]"
      and sz: "stat_size e (path_join (sourceFolder (cwd e)) f) = Some size'" "size' \<noteq> 0"
      and du: "getVideoDurationInSeconds e (path_join (sourceFolder (cwd e)) f) = Some (Num d)"
      and long: "300 < d"
    have "findVideo e = Inr (path_join (sourceFolder (cwd e)) f)"
      using fv v sz by blast
    moreover have "validateDuration e (path_join (sourceFolder (cwd e)) f)
                     = Inl (VideoProcessingError DURATION_TOO_LONG)"
      using du long by (simp add: validateDuration_def Let_def)
    ultimately show "r = Some (Inl (VideoProcessingError DURATION_TOO_LONG))"
      using assms(1,6) 1 by (simp add: process_stages rethrow_code)
  qed
  have d: "r = Some (Inl (VideoProcessingError NO_VIDEO_FOUND))
            \<or> r = Some (Inl (VideoProcessingError MULTIPLE_VIDEOS))
            \<or> r = Some (Inl (VideoProcessingError DURATION_TOO_LONG))
            \<longrightarrow> extracted s' = extracted s \<and> composed s' = composed s
              \<and> entries (frames s') = entries (frames s) \<and> grid s' = grid s"
    using process_outcome [OF assms(6)] by auto
  from a b c d show ?thesis by (intro conjI)
qed

theorem process_fails_before_purge_witness:
  "ffmpeg_version_ok long_video_env \<and> source_readable long_video_env
   \<and> frames stale_world \<noteq> None
   \<and> readdir_source long_video_env = Some [''notes.txt'', ''Demo.MP4'']
   \<and> filter (\<lambda>file. toLowerCase (extname file) \<in> set supportedFormats) [''notes.txt'', ''Demo.MP4'']
       = [''Demo.MP4'']
   \<and> (300 :: rat) < 301
   \<and> fst (process long_video_env stale_world) = Some (Inl (VideoProcessingError DURATION_TOO_LONG))
   \<and> extracted (snd (process long_video_env stale_world)) = extracted stale_world
   \<and> composed (snd (process long_video_env stale_world)) = composed stale_world
   \<and> entries (frames (snd (process long_video_env stale_world))) = entries (frames stale_world)
   \<and> grid (snd (process long_video_env stale_world)) = grid stale_world
   \<and> filter (\<lambda>file. toLowerCase (extname file) \<in> set supportedFormats) [''notes.txt''] = []
   \<and> fst (process no_video_env stale_world) = Some (Inl (VideoProcessingError NO_VIDEO_FOUND))
   \<and> entries (frames (snd (process no_video_env stale_world))) = entries (frames stale_world)
   \<and> grid (snd (process no_video_env stale_world)) = grid stale_world
   \<and> filter (\<lambda>file. toLowerCase (extname file) \<in> set supportedFormats) [''a.mp4'', ''b.MOV'']
       = [''a.mp4'', ''b.MOV'']
   \<and> fst (process two_videos_env stale_world) = Some (Inl (VideoProcessingError MULTIPLE_VIDEOS))
   \<and> entries (frames (snd (process two_videos_env stale_world))) = entries (frames stale_world)
   \<and> grid (snd (process two_videos_env stale_world)) = grid stale_world"
proof -
  let ?files = "[''notes.txt'', ''Demo.MP4'']"
  let ?path = "path_join (sourceFolder (cwd long_video_env)) ''Demo.MP4''"
  have 1: "ffmpeg_version_ok long_video_env" and 2: "source_readable long_video_env"
    by (simp_all add: long_video_env_def sample_env_def)
  have 3: "frames stale_world \<noteq> None \<or> mkdir_ok long_video_env (framesFolder (cwd long_video_env))"
    and fr: "frames stale_world \<noteq> None"
    by (simp_all add: stale_world_def)
  have 4: "readdir_source long_video_env = Some ?files"
    by (simp add: long_video_env_def sample_env_def)
  have 5: "[''Demo.MP4''] = filter (\<lambda>file. toLowerCase (extname file) \<in> set supportedFormats) ?files"
    by code_simp
  have 6: "process long_video_env stale_world
             = (fst (process long_video_env stale_world), snd (process long_video_env stale_world))"
    by simp
  have sz: "stat_size long_video_env ?path = Some 4096" "(4096 :: nat) \<noteq> 0"
    and du: "getVideoDurationInSeconds long_video_env ?path = Some (Num 301)"
    and long: "(300 :: rat) < 301"
    by (simp_all add: long_video_env_def sample_env_def)
  note t = process_fails_before_purge [OF 1 2 3 4 5 6]
  from t [THEN conjunct2, THEN conjunct2, THEN conjunct1] sz du long
  have r: "fst (process long_video_env stale_world) = Some (Inl (VideoProcessingError DURATION_TOO_LONG))"
    by blast
  with t [THEN conjunct2, THEN conjunct2, THEN conjunct2]
  have u: "extracted (snd (process long_video_env stale_world)) = extracted stale_world"
      "composed (snd (process long_video_env stale_world)) = composed stale_world"
      "entries (frames (snd (process long_video_env stale_world))) = entries (frames stale_world)"
      "grid (snd (process long_video_env stale_world)) = grid stale_world"
    by blast+
  have n1: "ffmpeg_version_ok no_video_env" and n2: "source_readable no_video_env"
    and n3: "frames stale_world \<noteq> None \<or> mkdir_ok no_video_env (framesFolder (cwd no_video_env))"
    and n4: "readdir_source no_video_env = Some [''notes.txt'']"
    by (simp_all add: no_video_env_def sample_env_def stale_world_def)
  have n5: "[] = filter (\<lambda>file. toLowerCase (extname file) \<in> set supportedFormats) [''notes.txt'']"
    by code_simp
  have n6: "process no_video_env stale_world
             = (fst (process no_video_env stale_world), snd (process no_video_env stale_world))"
    by simp
  note tn = process_fails_before_purge [OF n1 n2 n3 n4 n5 n6]
  from tn [THEN conjunct1]
  have rn: "fst (process no_video_env stale_world) = Some (Inl (VideoProcessingError NO_VIDEO_FOUND))"
    by blast
  with tn [THEN conjunct2, THEN conjunct2, THEN conjunct2]
  have un: "entries (frames (snd (process no_video_env stale_world))) = entries (frames stale_world)"
      "grid (snd (process no_video_env stale_world)) = grid stale_world"
    by blast+
  have m1: "ffmpeg_version_ok two_videos_env" and m2: "source_readable two_videos_env"
    and m3: "frames stale_world \<noteq> None \<or> mkdir_ok two_videos_env (framesFolder (cwd two_videos_env))"
    and m4: "readdir_source two_videos_env = Some [''a.mp4'', ''b.MOV'']"
    by (simp_all add: two_videos_env_def sample_env_def stale_world_def)
  have m5: "[''a.mp4'', ''b.MOV'']
              = filter (\<lambda>file. toLowerCase (extname file) \<in> set supportedFormats) [''a.mp4'', ''b.MOV'']"
    by code_simp
  have m6: "process two_videos_env stale_world
             = (fst (process two_videos_env stale_world), snd (process two_videos_env stale_world))"
    by simp
  note tm = process_fails_before_purge [OF m1 m2 m3 m4 m5 m6]
  from tm [THEN conjunct2, THEN conjunct1]
  have rm: "fst (process two_videos_env stale_world) = Some (Inl (VideoProcessingError MULTIPLE_VIDEOS))"
    by simp
  with tm [THEN conjunct2, THEN conjunct2, THEN conjunct2]
  have um: "entries (frames (snd (process two_videos_env stale_world))) = entries (frames stale_world)"
      "grid (snd (process two_videos_env stale_world)) = grid stale_world"
    by blast+
  from 1 2 fr 4 5 [symmetric] long r u n5 [symmetric] rn un m5 [symmetric] rm um
  show ?thesis by (intro conjI)
qed

text \<open>
  C7 as stated, for every run whose source folder holds no supported video, does not
  hold: the checks run in order, and a run whose source folder holds no video but whose
  decoder is missing fails with \<open>FFMPEG_NOT_FOUND\<close>, not with \<open>NO_VIDEO_FOUND\<close>.
\<close>

theorem process_decoder_missing_counterexample:
  "filter (\<lambda>file. toLowerCase (extname file) \<in> set supportedFormats) [''notes.txt''] = []
   \<and> readdir_source no_decoder_env = Some [''notes.txt'']
   \<and> fst (process no_decoder_env stale_world) = Some (Inl (VideoProcessingError FFMPEG_NOT_FOUND))
   \<and> fst (process no_decoder_env stale_world) \<noteq> Some (Inl (VideoProcessingError NO_VIDEO_FOUND))"
proof (intro conjI)
  show "filter (\<lambda>file. toLowerCase (extname file) \<in> set supportedFormats) [''notes.txt''] = []"
    by code_simp
  show "readdir_source no_decoder_env = Some [''notes.txt'']"
    by (simp add: no_decoder_env_def)
  show r: "fst (process no_decoder_env stale_world) = Some (Inl (VideoProcessingError FFMPEG_NOT_FOUND))"
    by (simp add: process_stages no_decoder_env_def)
  show "fst (process no_decoder_env stale_world) \<noteq> Some (Inl (VideoProcessingError NO_VIDEO_FOUND))"
    by (simp add: r)
qed

section \<open>Running the pipeline again\<close>






end
